theory Spec2Isabelle
  imports Complex_Main "HOL-Library.AList" "HOL-Library.Sublist"
begin

section \<open>Text: Python strings as lists of code points\<close>

text \<open>
  A Python \<open>str\<close> is a sequence of Unicode code points, so a string of the model is a
  list of natural numbers. \<open>u\<close> turns an ASCII literal into such a list; a
  non-ASCII character of the source is written as its code point.
\<close>

type_synonym ustring = "nat list"

definition u :: "string \<Rightarrow> ustring" where
  "u s = map of_char s"

text \<open>
  The service asks the Unicode character database two questions about a code point:
  whether it is alphanumeric (\<open>str.isalnum\<close>, behind the regex class \<open>\w\<close>) and
  what its decimal digit value is (behind \<open>\d\<close> and \<open>int()\<close>). The database is
  not part of the repository. For ASCII the answers are written out below; for the other
  code points they are a parameter \<open>U\<close> of every function that needs them.
\<close>

record ucd =
  ucd_alnum :: "nat \<Rightarrow> bool"
  ucd_decimal :: "nat \<Rightarrow> nat option"

definition is_decimal :: "ucd \<Rightarrow> nat \<Rightarrow> bool" where
  "is_decimal U c = (if c < 128 then 48 \<le> c \<and> c \<le> 57 else ucd_decimal U c \<noteq> None)"

definition decimal_value :: "ucd \<Rightarrow> nat \<Rightarrow> nat" where
  "decimal_value U c = (if c < 128 then c - 48 else (case ucd_decimal U c of Some d \<Rightarrow> d | None \<Rightarrow> 0))"

definition is_ascii_letter :: "nat \<Rightarrow> bool" where
  "is_ascii_letter c = ((65 \<le> c \<and> c \<le> 90) \<or> (97 \<le> c \<and> c \<le> 122))"

text \<open>\<open>\w\<close> of a \<open>str\<close> pattern: alphanumeric or the underscore.\<close>

definition is_word :: "ucd \<Rightarrow> nat \<Rightarrow> bool" where
  "is_word U c = (if c < 128 then is_ascii_letter c \<or> (48 \<le> c \<and> c \<le> 57) \<or> c = 95
                  else ucd_alnum U c)"

text \<open>
  \<open>\s\<close> of a \<open>str\<close> pattern and the characters removed by \<open>str.strip()\<close>: the
  code points for which \<open>str.isspace\<close> holds.
\<close>

definition is_space :: "nat \<Rightarrow> bool" where
  "is_space c = ((9 \<le> c \<and> c \<le> 13) \<or> (28 \<le> c \<and> c \<le> 32) \<or> c = 133 \<or> c = 160
                 \<or> c = 5760 \<or> (8192 \<le> c \<and> c \<le> 8202) \<or> c = 8232 \<or> c = 8233
                 \<or> c = 8239 \<or> c = 8287 \<or> c = 12288)"

text \<open>
  The part of the database for the Devanagari block, the only non-ASCII block the
  literals of the service use: letters and digits are alphanumeric, the combining
  vowel signs and marks are not. It is the table the model is run with on concrete inputs;
  code points outside ASCII and Devanagari are neither alphanumeric nor decimal in it.
\<close>

definition ucd_devanagari :: ucd where
  "ucd_devanagari =
     \<lparr> ucd_alnum = (\<lambda>c. (2308 \<le> c \<and> c \<le> 2361) \<or> c = 2365 \<or> c = 2384
                         \<or> (2392 \<le> c \<and> c \<le> 2401) \<or> (2406 \<le> c \<and> c \<le> 2415)
                         \<or> (2417 \<le> c \<and> c \<le> 2431)),
       ucd_decimal = (\<lambda>c. if 2406 \<le> c \<and> c \<le> 2415 then Some (c - 2406) else None) \<rparr>"

subsection \<open>String operations of the Python library\<close>

text \<open>\<open>s.strip()\<close>\<close>

definition py_strip :: "ustring \<Rightarrow> ustring" where
  "py_strip s = rev (dropWhile is_space (rev (dropWhile is_space s)))"

text \<open>\<open>sub in s\<close>\<close>

fun py_in :: "ustring \<Rightarrow> ustring \<Rightarrow> bool" where
  "py_in sub [] = (sub = [])"
| "py_in sub (c # cs) = (prefix sub (c # cs) \<or> py_in sub cs)"

text \<open>
  \<open>s.replace(old, new)\<close>: every non-overlapping occurrence of \<open>old\<close>, from the left.
  \<open>replace_from\<close> walks the string; its counter is the number of characters of a
  replaced occurrence still to be skipped.
\<close>

fun replace_from :: "ustring \<Rightarrow> ustring \<Rightarrow> nat \<Rightarrow> ustring \<Rightarrow> ustring" where
  "replace_from old new k [] = []"
| "replace_from old new (Suc k) (c # cs) = replace_from old new k cs"
| "replace_from old new 0 (c # cs) =
     (if prefix old (c # cs) then new @ replace_from old new (length old - 1) cs
      else c # replace_from old new 0 cs)"

definition py_replace :: "ustring \<Rightarrow> ustring \<Rightarrow> ustring \<Rightarrow> ustring" where
  "py_replace old new s =
     (if old = [] then new @ concat (map (\<lambda>c. c # new) s) else replace_from old new 0 s)"

text \<open>\<open>sep.join(parts)\<close>\<close>

fun py_join :: "ustring \<Rightarrow> ustring list \<Rightarrow> ustring" where
  "py_join sep [] = []"
| "py_join sep [x] = x"
| "py_join sep (x # y # ys) = x @ sep @ py_join sep (y # ys)"

text \<open>
  A dict display \<open>{k1: v1, k2: v2, ...}\<close> and \<open>d[k] = v\<close>: a repeated key keeps the place
  of its first occurrence and takes the last value. Dicts are association lists in
  insertion order.
\<close>

definition py_dict :: "('k \<times> 'v) list \<Rightarrow> ('k \<times> 'v) list" where
  "py_dict items = foldl (\<lambda>d kv. AList.update (fst kv) (snd kv) d) [] items"

section \<open>The OCR fragments\<close>

record fragment =
  frag_text :: ustring
  frag_confidence :: real
  frag_bbox :: "(int \<times> int) list"

section \<open>Text normalisation: \<open>_clean_ocr_text\<close>\<close>

text \<open>The dict display \<open>corrections\<close>, entry by entry as the source writes it.\<close>

definition corrections_display :: "(ustring \<times> ustring) list" where
  "corrections_display =
  [(u ''Fste@'', u ''District''),
   (u ''((aRT'', u ''Police Station''),
   (u ''Sot)'', u ''Station''),
   (u ''staTst'', u ''Station''),
   (u ''AeT@oat'', u ''Monday''),
   (u ''2X'', u ''2 hours''),
   (u ''STfeT'', u ''Street''),
   (u ''3fex)'', u ''Street''),
   (u ''TTA,'', u ''Street''),
   (u ''1 Tee aA.'', u ''1 km approx''),
   (u ''{81'', u ''House No''),
   (u ''Stel'', u ''Street''),
   (u ''HAN,'', u ''Hanuman''),
   (u ''caleit'', u ''Colony''),
   (u ''Stec,,'', u ''Street''),
   (u ''VoSITENs,,'', u ''Vishnu Nagar''),
   (u ''ailurst,'', u ''Ailur''),
   (u ''SMT'', u ''Street''),
   (u ''Orel'', u ''Shri''),
   (u ''galetaR'', u ''Gautam''),
   (u ''6971'', u ''1997''),
   (u ''ASAT'', u ''Street''),
   (u ''dash)'', u ''District''),
   (u ''Ari'' @ [233] @ u ''dt'', u ''Address''),
   (u ''fAreatearan)'', u ''Father/Husband''),
   (u ''Saal'', u ''Shri''),
   (u ''Fel'', u ''Shri''),
   (u ''SAeaa,'', u ''Shri''),
   (u ''Welk'', u ''Shri''),
   (u ''sear'', u ''Shri''),
   (u ''ara)'', u ''Name''),
   (u ''feat:'', u ''Date''),
   (u ''3itet'', u ''Street''),
   (u ''3fex)'', u ''Street''),
   (u ''TTA,'', u ''Street''),
   (u ''1 Tee aA.'', u ''1 km approx''),
   (u ''create:'', u ''District''),
   (u ''3itet'', u ''Street''),
   (u ''Rear'', u ''Present''),
   (u ''Ze.'', u ''No.''),
   (u ''det'', u ''Present''),
   (u ''Ze.'', u ''No.''),
   (u ''PATTON'', u ''Present''),
   (u ''feet'', u ''Address''),
   (u ''Pwr'', u ''Present''),
   (u ''faerard'', u ''Address''),
   (u ''HR'', u ''House''),
   (u ''Aelaeael'', u ''Address''),
   (u ''Tat'', u ''Street''),
   (u ''TAT'', u ''Street''),
   (u ''caret'', u ''Street''),
   (u ''attests'', u ''Address''),
   (u ''Yael'', u ''Street''),
   (u ''3a'', u ''No''),
   (u ''ed'', u ''No''),
   (u ''3teTstscla'', u ''Address''),
   (u ''let'', u ''No''),
   (u ''USAT'', u ''Present''),
   (u ''WEN'', u ''Address''),
   (u ''seer'', u ''Shri''),
   (u ''HAT'', u ''Street''),
   (u ''att'', u ''Street''),
   (u ''Hace'', u ''House''),
   (u ''TAT'', u ''Street''),
   (u ''FeV'', u ''No''),
   (u ''Als'', u ''No''),
   (u ''cared'', u ''Street''),
   (u ''Taweg'', u ''Street''),
   (u ''SN.UeT.UE.HoAA'', u ''S.No.''),
   (u ''IL'', u ''Shri''),
   (u ''SOTA'', u ''Shri''),
   (u ''THA'', u ''Street''),
   (u ''Mee'', u ''Street''),
   (u ''SA'', u ''Street''),
   (u ''GOR'', u ''Street''),
   (u ''Use'', u ''No''),
   (u ''TAR'', u ''Street''),
   (u ''ah'', u ''No''),
   (u ''fate'', u ''Street''),
   (u ''act'', u ''No''),
   (u ''fe,'', u ''No''),
   (u ''Ure'', u ''Present''),
   (u ''AT'', u ''No''),
   (u ''Udit'', u ''Shri''),
   (u ''Tale'', u ''Shri''),
   (u ''aired'', u ''Shri''),
   (u ''ale'', u ''Shri''),
   (u ''Aaell'', u ''Shri''),
   (u ''asa)'', u ''Name''),
   (u ''He'', u ''No''),
   (u ''AT'', u ''No''),
   (u ''Udit'', u ''Shri''),
   (u ''Tale'', u ''Shri''),
   (u ''aired'', u ''Shri''),
   (u ''ale'', u ''Shri''),
   (u ''Aaell'', u ''Shri''),
   (u ''asa)'', u ''Name'')]"

definition corrections :: "(ustring \<times> ustring) list" where
  "corrections = py_dict corrections_display"

text \<open>\<open>re.sub(r'[^\w\s.,:/()-]', '', text)\<close>\<close>

definition noise_allowed :: "ucd \<Rightarrow> nat \<Rightarrow> bool" where
  "noise_allowed U c = (is_word U c \<or> is_space c \<or> c \<in> set (u ''.,:/()-''))"

definition strip_noise :: "ucd \<Rightarrow> ustring \<Rightarrow> ustring" where
  "strip_noise U s = filter (noise_allowed U) s"

text \<open>The loop over \<open>corrections.items()\<close>.\<close>

definition apply_corrections :: "(ustring \<times> ustring) list \<Rightarrow> ustring \<Rightarrow> ustring" where
  "apply_corrections tab s = foldl (\<lambda>t kv. py_replace (fst kv) (snd kv) t) s tab"

text \<open>\<open>re.sub(r'\s+', ' ', text)\<close>: every maximal run of whitespace becomes one space.\<close>

function collapse_ws :: "ustring \<Rightarrow> ustring" where
  "collapse_ws [] = []"
| "collapse_ws (c # cs) =
     (if is_space c then 32 # collapse_ws (dropWhile is_space cs) else c # collapse_ws cs)"
  by pat_completeness auto
termination
  by (relation "measure length") (auto simp: length_dropWhile_le less_Suc_eq_le)

definition clean_text :: "ucd \<Rightarrow> ustring \<Rightarrow> ustring option" where
  "clean_text U raw =
     (let text = py_strip raw in
      if length text < 2 then None
      else let text = strip_noise U text;
               text = apply_corrections corrections text;
               text = py_strip (collapse_ws text)
           in if text \<noteq> [] then Some text else None)"

definition clean_ocr_text :: "ucd \<Rightarrow> fragment list \<Rightarrow> fragment list" where
  "clean_ocr_text U ocr_data =
     List.map_filter (\<lambda>item. map_option (\<lambda>t. \<lparr> frag_text = t,
                                                frag_confidence = frag_confidence item,
                                                frag_bbox = frag_bbox item \<rparr>)
                                       (clean_text U (frag_text item))) ocr_data"

text \<open>
  Text in which whitespace is collapsed: every whitespace character is a space and is
  not followed by another one.
\<close>

fun ws_ok :: "ustring \<Rightarrow> bool" where
  "ws_ok [] = True"
| "ws_ok [c] = (is_space c \<longrightarrow> c = 32)"
| "ws_ok (c # d # cs) = ((is_space c \<longrightarrow> c = 32 \<and> \<not> is_space d) \<and> ws_ok (d # cs))"

section \<open>Regular expressions\<close>

text \<open>
  The patterns of the service use literals, the classes \<open>.\<close>, \<open>\s\<close> and \<open>\d\<close> under a
  greedy or lazy repetition, alternation, capturing groups, \<open>$\<close> and \<open>\b\<close>. A pattern
  is a list of items matched in sequence. The matcher is the backtracking matcher of
  Python's \<open>re\<close>: alternatives are tried from the left, a greedy repetition tries the
  longest run first and a lazy one the shortest, and the first way to match the whole
  pattern is the result.
\<close>

datatype cls = CAny | CSpace | CDigit

datatype rx =
    Lit ustring
  | Rep cls nat "nat option" bool
  | Alt "rx list list"
  | Grp nat "rx list"
  | GEnd nat nat
  | Eos
  | Wb

text \<open>
  \<open>Rep c lo hi greedy\<close> is \<open>c{lo,hi}\<close> (\<open>hi = None\<close>: unbounded), lazy when
  \<open>greedy\<close> is false. \<open>Grp n p\<close> is the \<open>n\<close>-th capturing group; \<open>GEnd\<close> is not part
  of a source pattern: the matcher puts it behind the body of a group to record the
  captured text.
\<close>

record flags =
  ignorecase :: bool
  dotall :: bool

text \<open>
  A literal character of a pattern against a character of the text. Under
  \<open>re.IGNORECASE\<close> the text character is lower-cased and compared with the lower-cased
  pattern character and its listed equivalents: for an ASCII letter these are the two
  cases, the Kelvin sign for k, and the dotted capital and dotless small i for i, the long s for s.
  The Devanagari characters of the patterns have no case.
\<close>

definition ascii_lower :: "nat \<Rightarrow> nat" where
  "ascii_lower c = (if 65 \<le> c \<and> c \<le> 90 then c + 32 else c)"

definition ci_lower :: "nat \<Rightarrow> nat" where
  "ci_lower c = (if c = 304 then 105 else if c = 8490 then 107 else ascii_lower c)"

definition ci_eq :: "nat \<Rightarrow> nat \<Rightarrow> bool" where
  "ci_eq p c = (let lo = ascii_lower p; t = ci_lower c in
                t = lo \<or> (lo = 105 \<and> t = 305) \<or> (lo = 115 \<and> t = 383))"

definition chr_match :: "flags \<Rightarrow> nat \<Rightarrow> nat \<Rightarrow> bool" where
  "chr_match F p c = (if ignorecase F then ci_eq p c else p = c)"

fun lit_match :: "flags \<Rightarrow> ustring \<Rightarrow> ustring \<Rightarrow> bool" where
  "lit_match F [] s = True"
| "lit_match F (p # ps) [] = False"
| "lit_match F (p # ps) (c # cs) = (chr_match F p c \<and> lit_match F ps cs)"

fun in_cls :: "ucd \<Rightarrow> flags \<Rightarrow> cls \<Rightarrow> nat \<Rightarrow> bool" where
  "in_cls U F CAny c = (dotall F \<or> c \<noteq> 10)"
| "in_cls U F CSpace c = is_space c"
| "in_cls U F CDigit c = is_decimal U c"

text \<open>\<open>\b\<close>: exactly one of the characters before and after the position is a word character.\<close>

definition at_boundary :: "ucd \<Rightarrow> ustring \<Rightarrow> ustring \<Rightarrow> bool" where
  "at_boundary U pre s =
     ((case pre of [] \<Rightarrow> False | c # _ \<Rightarrow> is_word U c) \<noteq> (case s of [] \<Rightarrow> False | c # _ \<Rightarrow> is_word U c))"

text \<open>\<open>$\<close> without \<open>re.MULTILINE\<close>: the end of the text, or just before a final newline.\<close>

definition at_end :: "ustring \<Rightarrow> bool" where
  "at_end s = (s = [] \<or> s = [10])"

definition dec_more :: "nat option \<Rightarrow> nat option" where
  "dec_more m = map_option (\<lambda>k. k - 1) m"

type_synonym caps = "nat \<Rightarrow> ustring option"

text \<open>
  The state of a match is the text consumed so far, reversed (\<open>pre\<close>), the rest of the
  text (\<open>s\<close>) and the groups captured so far.
\<close>

function mt :: "ucd \<Rightarrow> flags \<Rightarrow> rx list \<Rightarrow> ustring \<Rightarrow> ustring \<Rightarrow> caps \<Rightarrow> (ustring \<times> ustring \<times> caps) option"
  and mt_alt :: "ucd \<Rightarrow> flags \<Rightarrow> rx list list \<Rightarrow> rx list \<Rightarrow> ustring \<Rightarrow> ustring \<Rightarrow> caps \<Rightarrow> (ustring \<times> ustring \<times> caps) option"
  and rep_lazy :: "ucd \<Rightarrow> flags \<Rightarrow> cls \<Rightarrow> nat option \<Rightarrow> rx list \<Rightarrow> ustring \<Rightarrow> ustring \<Rightarrow> caps \<Rightarrow> (ustring \<times> ustring \<times> caps) option"
  and rep_greedy :: "ucd \<Rightarrow> flags \<Rightarrow> cls \<Rightarrow> nat option \<Rightarrow> rx list \<Rightarrow> ustring \<Rightarrow> ustring \<Rightarrow> caps \<Rightarrow> (ustring \<times> ustring \<times> caps) option"
where
  "mt U F [] pre s caps = Some (pre, s, caps)"
| "mt U F (Lit l # r) pre s caps =
     (if lit_match F l s then mt U F r (rev (take (length l) s) @ pre) (drop (length l) s) caps
      else None)"
| "mt U F (Rep c lo hi greedy # r) pre s caps =
     (if lo \<le> length s \<and> list_all (in_cls U F c) (take lo s)
      then (if greedy
            then rep_greedy U F c (map_option (\<lambda>h. h - lo) hi) r (rev (take lo s) @ pre) (drop lo s) caps
            else rep_lazy U F c (map_option (\<lambda>h. h - lo) hi) r (rev (take lo s) @ pre) (drop lo s) caps)
      else None)"
| "mt U F (Alt ps # r) pre s caps = mt_alt U F ps r pre s caps"
| "mt U F (Grp n p # r) pre s caps = mt U F (p @ GEnd n (length pre) # r) pre s caps"
| "mt U F (GEnd n k # r) pre s caps =
     mt U F r pre s (caps(n \<mapsto> rev (take (length pre - k) pre)))"
| "mt U F (Eos # r) pre s caps = (if at_end s then mt U F r pre s caps else None)"
| "mt U F (Wb # r) pre s caps = (if at_boundary U pre s then mt U F r pre s caps else None)"
| "mt_alt U F [] r pre s caps = None"
| "mt_alt U F (p # ps) r pre s caps =
     (case mt U F (p @ r) pre s caps of
        Some m \<Rightarrow> Some m
      | None \<Rightarrow> mt_alt U F ps r pre s caps)"
| "rep_lazy U F c quota r pre s caps =
     (case mt U F r pre s caps of
        Some m \<Rightarrow> Some m
      | None \<Rightarrow>
          (case s of
             [] \<Rightarrow> None
           | ch # s' \<Rightarrow>
               if in_cls U F c ch \<and> quota \<noteq> Some 0
               then rep_lazy U F c (dec_more quota) r (ch # pre) s' caps
               else None))"
| "rep_greedy U F c quota r pre s caps =
     (case s of
        [] \<Rightarrow> mt U F r pre s caps
      | ch # s' \<Rightarrow>
          if in_cls U F c ch \<and> quota \<noteq> Some 0
          then (case rep_greedy U F c (dec_more quota) r (ch # pre) s' caps of
                  Some m \<Rightarrow> Some m
                | None \<Rightarrow> mt U F r pre s caps)
          else mt U F r pre s caps)"
  by pat_completeness auto
termination
  apply (relation "inv_image (less_than <*lex*> less_than)
     (\<lambda>x. case x of
         Inl (Inl (U, F, items, pre, s, caps)) \<Rightarrow> (2 * size_list size items, length s)
       | Inl (Inr (U, F, ps, r, pre, s, caps)) \<Rightarrow>
           (2 * (size_list (size_list size) ps + size_list size r) + 1, length s)
       | Inr (Inl (U, F, c, q, r, pre, s, caps)) \<Rightarrow> (2 * size_list size r + 1, length s)
       | Inr (Inr (U, F, c, q, r, pre, s, caps)) \<Rightarrow> (2 * size_list size r + 1, length s))")
   apply (rule wf_inv_image, rule wf_lex_prod, rule wf_less_than, rule wf_less_than)
   apply (simp_all add: size_list_append)
  done

declare rep_lazy.simps [simp del] rep_greedy.simps [simp del]

lemma rep_lazy_Nil [simp]:
  "rep_lazy U F c q r pre [] caps = mt U F r pre [] caps"
  by (subst rep_lazy.simps) (simp split: option.splits)

lemma rep_lazy_Cons [simp]:
  "rep_lazy U F c q r pre (ch # s') caps =
     (case mt U F r pre (ch # s') caps of
        Some m \<Rightarrow> Some m
      | None \<Rightarrow> if in_cls U F c ch \<and> q \<noteq> Some 0
                then rep_lazy U F c (dec_more q) r (ch # pre) s' caps else None)"
  by (subst rep_lazy.simps) (simp split: option.splits)

lemma rep_greedy_Nil [simp]:
  "rep_greedy U F c q r pre [] caps = mt U F r pre [] caps"
  by (subst rep_greedy.simps) simp

lemma rep_greedy_Cons [simp]:
  "rep_greedy U F c q r pre (ch # s') caps =
     (if in_cls U F c ch \<and> q \<noteq> Some 0
      then (case rep_greedy U F c (dec_more q) r (ch # pre) s' caps of
              Some m \<Rightarrow> Some m
            | None \<Rightarrow> mt U F r pre (ch # s') caps)
      else mt U F r pre (ch # s') caps)"
  by (subst rep_greedy.simps) (simp split: option.splits)

text \<open>\<open>re.search\<close>: the first position, from the left, at which the pattern matches.\<close>

fun search_from :: "ucd \<Rightarrow> flags \<Rightarrow> rx list \<Rightarrow> ustring \<Rightarrow> ustring \<Rightarrow> (ustring \<times> ustring \<times> caps) option" where
  "search_from U F p pre [] = mt U F p pre [] Map.empty"
| "search_from U F p pre (c # cs) =
     (case mt U F p pre (c # cs) Map.empty of
        Some m \<Rightarrow> Some m
      | None \<Rightarrow> search_from U F p (c # pre) cs)"

definition re_search :: "ucd \<Rightarrow> flags \<Rightarrow> rx list \<Rightarrow> ustring \<Rightarrow> caps option" where
  "re_search U F p s = map_option (\<lambda>m. snd (snd m)) (search_from U F p [] s)"

text \<open>
  \<open>m.group(n)\<close>. Every group of the service's patterns lies outside any alternative, so
  it has taken part in every match.
\<close>

definition match_group :: "caps \<Rightarrow> nat \<Rightarrow> ustring" where
  "match_group m n = (case m n of Some g \<Rightarrow> g | None \<Rightarrow> [])"

text \<open>
  \<open>re.findall\<close> for a pattern with one group: the text of the group in each match, the
  matches found from the left without overlap. After an empty match the scan moves on
  by one character.
\<close>

function findall_from :: "ucd \<Rightarrow> flags \<Rightarrow> rx list \<Rightarrow> ustring \<Rightarrow> ustring \<Rightarrow> ustring list" where
  "findall_from U F p pre s =
     (case mt U F p pre s Map.empty of
        Some m \<Rightarrow>
          match_group (snd (snd m)) 1 #
            (if length (fst (snd m)) < length s then findall_from U F p (fst m) (fst (snd m))
             else (case s of [] \<Rightarrow> [] | c # cs \<Rightarrow> findall_from U F p (c # pre) cs))
      | None \<Rightarrow> (case s of [] \<Rightarrow> [] | c # cs \<Rightarrow> findall_from U F p (c # pre) cs))"
  by pat_completeness auto
termination
  by (relation "measure (\<lambda>(U, F, p, pre, s). length s)") auto

declare findall_from.simps [simp del]

definition re_findall :: "ucd \<Rightarrow> flags \<Rightarrow> rx list \<Rightarrow> ustring \<Rightarrow> ustring list" where
  "re_findall U F p s = findall_from U F p [] s"

abbreviation any_lazy :: rx where
  "any_lazy \<equiv> Rep CAny 0 None False"

abbreviation ws :: rx where
  "ws \<equiv> Rep CSpace 0 None True"

abbreviation digits :: "nat \<Rightarrow> rx" where
  "digits n \<equiv> Rep CDigit n (Some n) True"

definition no_flags :: flags where
  "no_flags = \<lparr> ignorecase = False, dotall = False \<rparr>"

definition IGNORECASE :: flags where
  "IGNORECASE = \<lparr> ignorecase = True, dotall = False \<rparr>"

definition IGNORECASE_DOTALL :: flags where
  "IGNORECASE_DOTALL = \<lparr> ignorecase = True, dotall = True \<rparr>"


section \<open>Python values\<close>

text \<open>
  The values that travel as JSON: the FIR record returned by the extraction, and the
  training samples read back from disk. A dict is an association list in insertion
  order; its keys are ASCII names (a key outside ASCII is its UTF-8 bytes).
\<close>

datatype pyval =
    PNone
  | PBool bool
  | PInt int
  | PFloat real
  | PStr ustring
  | PList "pyval list"
  | PDict "(string \<times> pyval) list"

datatype exn = AttributeError | TypeError | ValueError | KeyError

text \<open>The truth value of an object in a condition.\<close>

fun truthy :: "pyval \<Rightarrow> bool" where
  "truthy PNone = False"
| "truthy (PBool b) = b"
| "truthy (PInt i) = (i \<noteq> 0)"
| "truthy (PFloat x) = (x \<noteq> 0)"
| "truthy (PStr s) = (s \<noteq> [])"
| "truthy (PList xs) = (xs \<noteq> [])"
| "truthy (PDict d) = (d \<noteq> [])"

fun is_dict :: "pyval \<Rightarrow> bool" where
  "is_dict (PDict d) = True"
| "is_dict v = False"

fun is_str :: "pyval \<Rightarrow> bool" where
  "is_str (PStr s) = True"
| "is_str v = False"

text \<open>\<open>x.get(k, default)\<close>: only a dict has the method.\<close>

fun py_get :: "pyval \<Rightarrow> string \<Rightarrow> pyval \<Rightarrow> exn + pyval" where
  "py_get (PDict d) k dflt = Inr (case map_of d k of Some v \<Rightarrow> v | None \<Rightarrow> dflt)"
| "py_get x k dflt = Inl AttributeError"

text \<open>\<open>d.update(e)\<close>\<close>

definition py_update :: "('k \<times> 'v) list \<Rightarrow> ('k \<times> 'v) list \<Rightarrow> ('k \<times> 'v) list" where
  "py_update d e = foldl (\<lambda>d kv. AList.update (fst kv) (snd kv) d) d e"

section \<open>The pattern table of the extraction service\<close>

text \<open>
  \<open>FIRExtractionService.__init__\<close>: the baseline patterns, as the strings the source
  writes (a backslash is the code point 92).
\<close>

definition baseline_patterns :: "(string \<times> ustring) list" where
  "baseline_patterns = py_dict
     [(''fir_no'', u ''FIR'' @ [92] @ u ''s*No'' @ [92] @ u ''.'' @ [92] @ u ''s*:'' @ [92] @ u ''s*('' @ [92] @ u ''d{4})''),
      (''date_time'', u ''Date'' @ [92] @ u ''s*and'' @ [92] @ u ''s*Time'' @ [92] @ u ''s*of'' @ [92] @ u ''s*FIR.*?:.*?('' @ [92] @ u ''d{2}/'' @ [92] @ u ''d{2}/'' @ [92] @ u ''d{4})'' @ [92] @ u ''s*('' @ [92] @ u ''d{2}:'' @ [92] @ u ''d{2})''),
      (''district'', u ''District.*?:'' @ [92] @ u ''s*(.*?)(?:'' @ [92] @ u ''s*Year|'' @ [92] @ u ''s*$)''),
      (''police_station'', u ''P'' @ [92] @ u ''.S'' @ [92] @ u ''..*?:'' @ [92] @ u ''s*(.*?)(?:'' @ [92] @ u ''s*Year|'' @ [92] @ u ''s*$)''),
      (''year'', u ''Year.*?:'' @ [92] @ u ''s*('' @ [92] @ u ''d{4})''),
      (''mobile'', u ''(?:'' @ [2350, 2379, 2348, 92] @ u ''.?'' @ [2344, 2306, 92] @ u ''.?|Mobile|Phone).*?('' @ [92] @ u ''d{10})''),
      (''complainant_name'', u ''(?:Complainant|'' @ [2347, 2367, 2352, 2381, 2351, 2366, 2342, 2368] @ u ''|Informant).*?(?:Name|'' @ [2344, 2366, 2357] @ u '').*?:(.*?)(?:Father|'' @ [2357, 2337, 2368, 2354] @ u ''|$)''),
      (''father_name'', u ''(?:Father|'' @ [2357, 2337, 2368, 2354] @ u '').*?(?:Name|'' @ [2344, 2366, 2357] @ u '').*?:(.*?)(?:DOB|'' @ [2357, 2351] @ u ''|$)''),
      (''dob'', u ''(?:DOB|Date.*Birth|'' @ [2357, 2351] @ u '').*?('' @ [92] @ u ''d{4})''),
      (''address'', u ''(?:Address|'' @ [2346, 2340, 2381, 2340, 2366] @ u '').*?:(.*?)(?:Phone|Mobile|$)''),
      (''acts_sections'', u ''(?:'' @ [2349, 2366, 2352, 2340, 2368, 2351] @ u '' '' @ [2344, 2381, 2351, 2366, 2351] @ u '' '' @ [2360, 2306, 2361, 2367, 2340, 2366] @ u ''|Indian Penal Code|BNS).*?('' @ [92] @ u ''d+)''),
      (''day'', u ''Day.*?:'' @ [92] @ u ''s*(.*?)(?:'' @ [92] @ u ''s*Date|$)''),
      (''time_period'', u ''Time'' @ [92] @ u ''s*Period.*?:'' @ [92] @ u ''s*(.*?)(?:'' @ [92] @ u ''s*Time|$)''),
      (''direction'', u ''Direction.*?:'' @ [92] @ u ''s*(.*?)(?:'' @ [92] @ u ''s*Distance|$)''),
      (''distance'', u ''Distance.*?:'' @ [92] @ u ''s*(.*?)(?:'' @ [92] @ u ''s*Beat|$)''),
      (''officer_name'', u ''(?:Officer|'' @ [2309, 2343, 2367, 2325, 2366, 2352, 2368] @ u '').*?(?:Name|'' @ [2344, 2366, 2357] @ u '').*?:(.*?)(?:Rank|'' @ [2346, 2342] @ u ''|$)''),
      (''rank'', u ''Rank.*?:'' @ [92] @ u ''s*(.*?)(?:'' @ [92] @ u ''s*No|$)''),
      (''officer_no'', u ''No'' @ [92] @ u ''.'' @ [92] @ u ''s*:'' @ [92] @ u ''s*(.*?)(?:'' @ [92] @ u ''s*$)'')]"

section \<open>Pattern refinement: \<open>TrainingService\<close>\<close>

text \<open>
  \<open>re.escape\<close> (Python 3.7 and later): a backslash before each of the characters
  \<open>()[]{}?*+-|^$\.&~#\<close>, the space and the ASCII control whitespace.
\<close>

definition escape_special :: "nat list" where
  "escape_special = u ''()[]{}?*+-|^$'' @ [92] @ u ''.&~# '' @ [9, 10, 13, 11, 12]"

definition re_escape :: "ustring \<Rightarrow> ustring" where
  "re_escape s = concat (map (\<lambda>c. if c \<in> set escape_special then [92, c] else [c]) s)"

text \<open>\<open>sample.get('ground_truth', {}).get(group, {}).get(field, '')\<close>\<close>

definition ground_truth_field :: "pyval \<Rightarrow> string \<Rightarrow> string \<Rightarrow> exn + pyval" where
  "ground_truth_field sample grp fld =
     (case py_get sample ''ground_truth'' (PDict []) of
        Inl e \<Rightarrow> Inl e
      | Inr g \<Rightarrow>
          (case py_get g grp (PDict []) of
             Inl e \<Rightarrow> Inl e
           | Inr f \<Rightarrow> py_get f fld (PStr [])))"

text \<open>The loop that fills \<open>fir_numbers\<close>.\<close>

fun collect_fir_numbers :: "pyval list \<Rightarrow> exn + pyval list" where
  "collect_fir_numbers [] = Inr []"
| "collect_fir_numbers (sample # rest) =
     (case ground_truth_field sample ''FIR'' ''FIRNo'' of
        Inl e \<Rightarrow> Inl e
      | Inr fir_no \<Rightarrow>
          (case collect_fir_numbers rest of
             Inl e \<Rightarrow> Inl e
           | Inr acc \<Rightarrow> Inr (if truthy fir_no \<and> fir_no \<noteq> PStr [] then fir_no # acc else acc)))"

text \<open>
  The loops that fill \<open>districts\<close>, \<open>ps_stations\<close> and \<open>names\<close>: each value that
  passes the test is escaped and appended. \<open>re.escape\<close> of a value that is not a string
  raises \<open>TypeError\<close>.
\<close>

fun collect_escaped :: "string \<Rightarrow> string \<Rightarrow> pyval list \<Rightarrow> exn + ustring list" where
  "collect_escaped grp fld [] = Inr []"
| "collect_escaped grp fld (sample # rest) =
     (case ground_truth_field sample grp fld of
        Inl e \<Rightarrow> Inl e
      | Inr v \<Rightarrow>
          if truthy v \<and> v \<noteq> PStr []
          then (case v of
                  PStr s \<Rightarrow>
                    (case collect_escaped grp fld rest of
                       Inl e \<Rightarrow> Inl e
                     | Inr acc \<Rightarrow> Inr (re_escape s # acc))
                | _ \<Rightarrow> Inl TypeError)
          else collect_escaped grp fld rest)"

definition improved_fir_no :: ustring where
  "improved_fir_no = u ''FIR'' @ [92] @ u ''s*No'' @ [92] @ u ''.?'' @ [92] @ u ''s*:?'' @ [92] @ u ''s*('' @ [92] @ u ''d{4})''"

definition district_label :: ustring where
  "district_label = u ''(?:District|'' @ [2332, 2367, 2354, 2366] @ u '').*?:'' @ [92] @ u ''s*(''"

definition police_station_label :: ustring where
  "police_station_label = u ''(?:P'' @ [92] @ u ''.S'' @ [92] @ u ''.|Police Station|'' @ [2341, 2366, 2344, 2375] @ u '').*?:'' @ [92] @ u ''s*(''"

definition name_label :: ustring where
  "name_label = u ''(?:Name|'' @ [2344, 2366, 2357] @ u '').*?:'' @ [92] @ u ''s*(''"

definition name_fallback :: ustring where
  "name_fallback = u ''|'' @ [92] @ u ''w+(?:'' @ [92] @ u ''s+'' @ [92] @ u ''w+)*)''"

text \<open>\<open>_analyze_training_samples\<close>\<close>

definition analyze_training_samples :: "pyval list \<Rightarrow> exn + (string \<times> ustring) list" where
  "analyze_training_samples samples =
     (case collect_fir_numbers samples of
        Inl e \<Rightarrow> Inl e
      | Inr fir_numbers \<Rightarrow>
     (let p1 = (if fir_numbers \<noteq> [] then AList.update ''fir_no'' improved_fir_no [] else []) in
      case collect_escaped ''FIR'' ''District'' samples of
        Inl e \<Rightarrow> Inl e
      | Inr districts \<Rightarrow>
     (let p2 = (if districts \<noteq> []
                then AList.update ''district''
                       (district_label @ py_join (u ''|'') (take 5 districts) @ u '')'') p1
                else p1) in
      case collect_escaped ''FIR'' ''PoliceStation'' samples of
        Inl e \<Rightarrow> Inl e
      | Inr ps_stations \<Rightarrow>
     (let p3 = (if ps_stations \<noteq> []
                then AList.update ''police_station''
                       (police_station_label @ py_join (u ''|'') (take 5 ps_stations) @ u '')'') p2
                else p2) in
      case collect_escaped ''ComplainantInformant'' ''Name'' samples of
        Inl e \<Rightarrow> Inl e
      | Inr names \<Rightarrow>
          Inr (if names \<noteq> []
               then AList.update ''complainant_name''
                      (name_label @ py_join (u ''|'') (take 3 names) @ name_fallback) p3
               else p3)))))"

text \<open>
  The file \<open>improved_patterns.json\<close>: absent, holding a pattern mapping, or left
  unreadable by a write that failed part-way.
\<close>

datatype patterns_file = NoFile | PatternsFile "(string \<times> ustring) list" | Unreadable

text \<open>
  The state a refinement runs in: the samples under \<open>training_data\<close> that load, the file
  of improved patterns, and the pattern table of the service object that serves the upload
  route (constructed when the application starts).
\<close>

record train_state =
  sample_files :: "pyval list"
  improved_patterns_file :: patterns_file
  running_patterns :: "(string \<times> ustring) list"

text \<open>
  \<open>_load_improved_patterns\<close>: the table is updated with the mapping of the file when
  the file exists and loads; a failure to load is logged and dropped.
\<close>

definition load_improved_patterns ::
  "patterns_file \<Rightarrow> (string \<times> ustring) list \<Rightarrow> (string \<times> ustring) list" where
  "load_improved_patterns f table =
     (case f of
        PatternsFile improved \<Rightarrow> py_update table improved
      | NoFile \<Rightarrow> table
      | Unreadable \<Rightarrow> table)"

text \<open>The pattern table of a \<open>FIRExtractionService\<close> constructed in a given state of the disk.\<close>

definition service_patterns :: "train_state \<Rightarrow> (string \<times> ustring) list" where
  "service_patterns st = load_improved_patterns (improved_patterns_file st) baseline_patterns"

text \<open>
  \<open>_save_improved_patterns\<close>: the file is opened for writing and the mapping dumped
  into it with \<open>ensure_ascii=False\<close>; every exception is logged and dropped. The dump
  fails on a text that UTF-8 cannot encode (a surrogate code point), and leaves the file
  truncated. Apart from that the operating system decides: \<open>DiskOk\<close>, or \<open>DiskFails f\<close>
  for a write that fails and leaves the file as \<open>f\<close>.
\<close>

datatype disk = DiskOk | DiskFails patterns_file

definition utf8_encodable :: "ustring \<Rightarrow> bool" where
  "utf8_encodable s = list_all (\<lambda>c. c < 55296 \<or> 57343 < c) s"

definition save_improved_patterns ::
  "disk \<Rightarrow> (string \<times> ustring) list \<Rightarrow> patterns_file \<Rightarrow> patterns_file" where
  "save_improved_patterns d improved f =
     (case d of
        DiskFails left \<Rightarrow> left
      | DiskOk \<Rightarrow>
          if list_all (\<lambda>kv. utf8_encodable (snd kv)) improved then PatternsFile improved
          else Unreadable)"

text \<open>
  \<open>retrain_model\<close>. The result keeps \<open>status\<close> and \<open>samples_used\<close>; the
  human-readable \<open>message\<close> is left out. Beside the result the model gives the pattern
  table the call has updated, if it has updated one (the table of the service object it
  constructs), and the state after the call. The table of the running service is not
  touched.
\<close>

record retrain_result =
  status :: string
  samples_used :: "nat option"

definition retrain_model ::
  "disk \<Rightarrow> train_state \<Rightarrow> retrain_result \<times> (string \<times> ustring) list option \<times> train_state" where
  "retrain_model d st =
     (let samples = sample_files st in
      if length samples < 5
      then (\<lparr> status = ''insufficient_data'', samples_used = None \<rparr>, None, st)
      else (case analyze_training_samples samples of
              Inr improved_patterns \<Rightarrow>
                (\<lparr> status = ''success'', samples_used = Some (length samples) \<rparr>,
                 Some (py_update (service_patterns st) improved_patterns),
                 st \<lparr> improved_patterns_file :=
                        save_improved_patterns d improved_patterns (improved_patterns_file st) \<rparr>)
            | Inl e \<Rightarrow> (\<lparr> status = ''error'', samples_used = None \<rparr>, None, st)))"

subsection \<open>What the refined patterns are made of\<close>

text \<open>
  The ground-truth value of a sample at a path, read without the exceptions: a missing
  key gives the default of the \<open>get\<close> chain.
\<close>

fun dict_items :: "pyval \<Rightarrow> (string \<times> pyval) list" where
  "dict_items (PDict d) = d"
| "dict_items x = []"

definition lookup_or :: "pyval \<Rightarrow> string \<Rightarrow> pyval \<Rightarrow> pyval" where
  "lookup_or x k dflt = (case map_of (dict_items x) k of Some v \<Rightarrow> v | None \<Rightarrow> dflt)"

definition gt_lookup :: "pyval \<Rightarrow> string \<Rightarrow> string \<Rightarrow> pyval" where
  "gt_lookup sample grp fld =
     lookup_or (lookup_or (lookup_or sample ''ground_truth'' (PDict [])) grp (PDict [])) fld (PStr [])"

text \<open>The non-empty string values of a field, one per sample that has one, in sample order.\<close>

definition string_values :: "string \<Rightarrow> string \<Rightarrow> pyval list \<Rightarrow> ustring list" where
  "string_values grp fld samples =
     concat (map (\<lambda>sample. case gt_lookup sample grp fld of
                               PStr s \<Rightarrow> (if s \<noteq> [] then [s] else [])
                             | _ \<Rightarrow> []) samples)"

definition has_fir_no :: "pyval list \<Rightarrow> bool" where
  "has_fir_no samples = list_ex (\<lambda>sample. truthy (gt_lookup sample ''FIR'' ''FIRNo'')) samples"

text \<open>
  When the analysis does not raise: the sample, its \<open>ground_truth\<close> and the entry of
  the group are dicts where present, so that the chain of \<open>get\<close> calls goes through,
  and a non-empty value handed to \<open>re.escape\<close> is a string.
\<close>

definition chain_ok :: "pyval \<Rightarrow> string \<Rightarrow> bool" where
  "chain_ok sample grp =
     (is_dict sample \<and> is_dict (lookup_or sample ''ground_truth'' (PDict []))
      \<and> is_dict (lookup_or (lookup_or sample ''ground_truth'' (PDict [])) grp (PDict [])))"

definition escapable :: "pyval \<Rightarrow> bool" where
  "escapable v = (is_str v \<or> \<not> truthy v)"

definition analysable :: "pyval list \<Rightarrow> bool" where
  "analysable samples =
     list_all (\<lambda>sample. chain_ok sample ''FIR'' \<and> chain_ok sample ''ComplainantInformant''
                 \<and> escapable (gt_lookup sample ''FIR'' ''District'')
                 \<and> escapable (gt_lookup sample ''FIR'' ''PoliceStation'')
                 \<and> escapable (gt_lookup sample ''ComplainantInformant'' ''Name'')) samples"

text \<open>
  A literal alternation: the first \<open>n\<close> values, escaped, joined by \<open>|\<close>, between the
  label and the closing text.
\<close>

definition alternation :: "ustring \<Rightarrow> nat \<Rightarrow> ustring list \<Rightarrow> ustring \<Rightarrow> ustring" where
  "alternation label n vals closing = label @ py_join (u ''|'') (take n (map re_escape vals)) @ closing"

text \<open>The alternation over the distinct values, which is what the specification describes.\<close>

definition distinct_alternation :: "ustring \<Rightarrow> nat \<Rightarrow> ustring list \<Rightarrow> ustring \<Rightarrow> ustring" where
  "distinct_alternation label n vals closing = alternation label n (rev (remdups (rev vals))) closing"

definition rule_of :: "exn + (string \<times> ustring) list \<Rightarrow> string \<Rightarrow> ustring option" where
  "rule_of r k = (case r of Inr patterns \<Rightarrow> map_of patterns k | Inl e \<Rightarrow> None)"

text \<open>Sample inputs: a sample whose ground truth has only a district, and one without ground truth.\<close>

definition district_sample :: "ustring \<Rightarrow> pyval" where
  "district_sample d = PDict [(''ground_truth'', PDict [(''FIR'', PDict [(''District'', PStr d)])])]"

definition full_sample :: "ustring \<Rightarrow> ustring \<Rightarrow> ustring \<Rightarrow> ustring \<Rightarrow> pyval" where
  "full_sample fir_no district ps name =
     PDict [(''file_id'', PStr (u ''f'')),
            (''ocr_data'', PDict []),
            (''ground_truth'',
               PDict [(''FIR'', PDict [(''FIRNo'', PStr fir_no), (''District'', PStr district),
                                       (''PoliceStation'', PStr ps)]),
                      (''ComplainantInformant'', PDict [(''Name'', PStr name)])])]"

definition number_district_sample :: pyval where
  "number_district_sample =
     PDict [(''ground_truth'',
               PDict [(''FIR'', PDict [(''FIRNo'', PStr (u ''2021'')), (''District'', PInt 5)])])]"

definition fir_no_sample :: "ustring \<Rightarrow> pyval" where
  "fir_no_sample n = PDict [(''ground_truth'', PDict [(''FIR'', PDict [(''FIRNo'', PStr n)])])]"

text \<open>
  \<open>int(s)\<close> on a captured run of digits: the decimal value. The service applies
  \<open>int\<close> to nothing else; on any other text the model raises \<open>ValueError\<close>.
\<close>

definition py_int :: "ucd \<Rightarrow> ustring \<Rightarrow> exn + int" where
  "py_int U s =
     (if s \<noteq> [] \<and> list_all (is_decimal U) s
      then Inr (int (foldl (\<lambda>acc c. 10 * acc + decimal_value U c) 0 s))
      else Inl ValueError)"

text \<open>\<open>str(n)\<close> of an integer.\<close>

function str_nat :: "nat \<Rightarrow> ustring" where
  "str_nat n = (if n < 10 then [48 + n] else str_nat (n div 10) @ [48 + n mod 10])"
  by pat_completeness auto
termination
  by (relation "measure id") auto

declare str_nat.simps [simp del]

definition py_str_int :: "int \<Rightarrow> ustring" where
  "py_str_int i = (if i < 0 then 45 # str_nat (nat (- i)) else str_nat (nat i))"

text \<open>
  A match whose first group has captured a non-empty run of decimal digits: what
  \<open>int()\<close> is applied to.
\<close>

definition digit_group :: "ucd \<Rightarrow> ustring \<times> ustring \<times> caps \<Rightarrow> bool" where
  "digit_group U m = (case snd (snd m) 1 of Some g \<Rightarrow> g \<noteq> [] \<and> list_all (is_decimal U) g | None \<Rightarrow> False)"

text \<open>A pattern all of whose matches have such a first group.\<close>

definition digit_rule :: "ucd \<Rightarrow> flags \<Rightarrow> rx list \<Rightarrow> bool" where
  "digit_rule U F r = (\<forall>pre s caps m. mt U F r pre s caps = Some m \<longrightarrow> digit_group U m)"

text \<open>The first run of four decimal digits of a text, read from the left without the matcher.\<close>

fun first_four_digits :: "ucd \<Rightarrow> ustring \<Rightarrow> ustring option" where
  "first_four_digits U [] = None"
| "first_four_digits U (c # cs) =
     (if 4 \<le> length (c # cs) \<and> list_all (is_decimal U) (take 4 (c # cs)) then Some (take 4 (c # cs))
      else first_four_digits U cs)"

definition digits_value :: "ucd \<Rightarrow> ustring \<Rightarrow> int" where
  "digits_value U run = int (foldl (\<lambda>acc c. 10 * acc + decimal_value U c) 0 run)"

section \<open>Field extraction: \<open>FIRExtractionService\<close>\<close>

text \<open>The object: its only attribute is the pattern table.\<close>

record service =
  self_patterns :: "(string \<times> ustring) list"

text \<open>
  The label-to-boundary rule most fields follow: search, strip the captured text, and
  accept it when its length lies strictly between the bounds.
\<close>

definition span_rule :: "ucd \<Rightarrow> flags \<Rightarrow> rx list \<Rightarrow> nat \<Rightarrow> nat \<Rightarrow> ustring \<Rightarrow> ustring option" where
  "span_rule U F p lo hi full_text =
     (case re_search U F p full_text of
        None \<Rightarrow> None
      | Some m \<Rightarrow>
          (let v = py_strip (match_group m 1) in
           if lo < length v \<and> length v < hi then Some v else None))"

definition or_empty :: "ustring option \<Rightarrow> ustring" where
  "or_empty v = (case v of Some s \<Rightarrow> s | None \<Rightarrow> [])"

subsection \<open>\<open>_extract_fir_info\<close>\<close>

text \<open>\<open>r'FIR.*?(\d{4})'\<close>, \<open>re.IGNORECASE\<close>\<close>

definition fir_no_rx :: "rx list" where
  "fir_no_rx = [Lit (u ''FIR''), any_lazy, Grp 1 [digits 4]]"

text \<open>\<open>r'(\d{2}/\d{2}/\d{4})\s*(\d{2}:\d{2})'\<close>\<close>

definition date_time_rx :: "rx list" where
  "date_time_rx =
     [Grp 1 [digits 2, Lit (u ''/''), digits 2, Lit (u ''/''), digits 4], ws,
      Grp 2 [digits 2, Lit (u '':''), digits 2]]"

text \<open>\<open>r'District.*?:(.*?)(?:\s*Police|\s*Station|\s*Year|\s*$)'\<close>, \<open>re.IGNORECASE\<close>\<close>

definition district_rx :: "rx list" where
  "district_rx =
     [Lit (u ''District''), any_lazy, Lit (u '':''), Grp 1 [any_lazy],
      Alt [[ws, Lit (u ''Police'')], [ws, Lit (u ''Station'')], [ws, Lit (u ''Year'')], [ws, Eos]]]"

text \<open>\<open>r'(?:P\.S\.|Police Station).*?:(.*?)(?:\s*Year|\s*$)'\<close>, \<open>re.IGNORECASE\<close>\<close>

definition police_station_rx :: "rx list" where
  "police_station_rx =
     [Alt [[Lit (u ''P.S.'')], [Lit (u ''Police Station'')]], any_lazy, Lit (u '':''),
      Grp 1 [any_lazy], Alt [[ws, Lit (u ''Year'')], [ws, Eos]]]"

text \<open>\<open>r'(\d{4})'\<close>\<close>

definition year_rx :: "rx list" where
  "year_rx = [Grp 1 [digits 4]]"

text \<open>\<open>re.sub(r'[^\w\s]', '', text)\<close>\<close>

definition strip_punctuation :: "ucd \<Rightarrow> ustring \<Rightarrow> ustring" where
  "strip_punctuation U s = filter (\<lambda>c. is_word U c \<or> is_space c) s"

definition fir_no_block :: "ucd \<Rightarrow> ustring \<Rightarrow> (string \<times> pyval) list \<Rightarrow> (string \<times> pyval) list" where
  "fir_no_block U full_text fir_info =
     (case re_search U IGNORECASE fir_no_rx full_text of
        Some m \<Rightarrow> AList.update ''FIRNo'' (PStr (match_group m 1)) fir_info
      | None \<Rightarrow> fir_info)"

definition date_time_block :: "ucd \<Rightarrow> ustring \<Rightarrow> (string \<times> pyval) list \<Rightarrow> (string \<times> pyval) list" where
  "date_time_block U full_text fir_info =
     (case re_search U no_flags date_time_rx full_text of
        Some m \<Rightarrow> AList.update ''DateTimeOfFIR'' (PStr (match_group m 1 @ u '' '' @ match_group m 2)) fir_info
      | None \<Rightarrow> fir_info)"

definition district_block :: "ucd \<Rightarrow> ustring \<Rightarrow> (string \<times> pyval) list \<Rightarrow> (string \<times> pyval) list" where
  "district_block U full_text fir_info =
     (case re_search U IGNORECASE district_rx full_text of
        Some m \<Rightarrow>
          (let district = py_strip (match_group m 1);
               district = py_strip (strip_punctuation U district)
           in if length district > 2 \<and> length district < 50
              then AList.update ''District'' (PStr district) fir_info else fir_info)
      | None \<Rightarrow> fir_info)"

definition police_station_block :: "ucd \<Rightarrow> ustring \<Rightarrow> (string \<times> pyval) list \<Rightarrow> (string \<times> pyval) list" where
  "police_station_block U full_text fir_info =
     (case re_search U IGNORECASE police_station_rx full_text of
        Some m \<Rightarrow>
          (let ps = py_strip (match_group m 1);
               ps = py_strip (strip_punctuation U ps)
           in if length ps > 2 \<and> length ps < 50
              then AList.update ''PoliceStation'' (PStr ps) fir_info else fir_info)
      | None \<Rightarrow> fir_info)"

definition year_block :: "ucd \<Rightarrow> ustring \<Rightarrow> (string \<times> pyval) list \<Rightarrow> exn + (string \<times> pyval) list" where
  "year_block U full_text fir_info =
     (case re_search U no_flags year_rx full_text of
        Some m \<Rightarrow>
          (case py_int U (match_group m 1) of
             Inl e \<Rightarrow> Inl e
           | Inr year \<Rightarrow>
               Inr (if 2000 \<le> year \<and> year \<le> 2030
                    then AList.update ''Year'' (PInt year) fir_info else fir_info))
      | None \<Rightarrow> Inr fir_info)"

definition likhit :: ustring where
  "likhit = [2354, 2367, 2326, 2367, 2340]"

definition maukhik :: ustring where
  "maukhik = [2350, 2380, 2326, 2367, 2325]"

definition type_of_information_block :: "ustring \<Rightarrow> (string \<times> pyval) list \<Rightarrow> (string \<times> pyval) list" where
  "type_of_information_block full_text fir_info =
     (if py_in likhit full_text \<or> py_in (u ''Written'') full_text
      then AList.update ''TypeOfInformation'' (PStr likhit) fir_info
      else if py_in maukhik full_text \<or> py_in (u ''Oral'') full_text
      then AList.update ''TypeOfInformation'' (PStr maukhik) fir_info
      else fir_info)"

definition extract_fir_info :: "ucd \<Rightarrow> fragment list \<Rightarrow> ustring \<Rightarrow> exn + (string \<times> pyval) list" where
  "extract_fir_info U ocr_data full_text =
     (let fir_info = [];
          fir_info = fir_no_block U full_text fir_info;
          fir_info = date_time_block U full_text fir_info;
          fir_info = district_block U full_text fir_info;
          fir_info = police_station_block U full_text fir_info
      in case year_block U full_text fir_info of
           Inl e \<Rightarrow> Inl e
         | Inr fir_info \<Rightarrow> Inr (type_of_information_block full_text fir_info))"

subsection \<open>\<open>_extract_complainant\<close>\<close>

text \<open>
  The routines below return a dict with a fixed set of keys: each starts from the
  defaults and overwrites a key when its rule accepts a match. The model computes the
  values first and writes the dict once.
\<close>

definition bharat :: ustring where
  "bharat = [2349, 2366, 2352, 2340]"

text \<open>\<open>r'Name.*?:(.*?)(?:\s*Father|\s*DOB|\s*Date|\s*$)'\<close>, \<open>re.IGNORECASE\<close>\<close>

definition name_rx :: "rx list" where
  "name_rx =
     [Lit (u ''Name''), any_lazy, Lit (u '':''), Grp 1 [any_lazy],
      Alt [[ws, Lit (u ''Father'')], [ws, Lit (u ''DOB'')], [ws, Lit (u ''Date'')], [ws, Eos]]]"

text \<open>\<open>r'(?:Father|Husband).*?(?:Name).*?:(.*?)(?:\s*DOB|\s*Date|\s*$)'\<close>, \<open>re.IGNORECASE\<close>\<close>

definition father_rx :: "rx list" where
  "father_rx =
     [Alt [[Lit (u ''Father'')], [Lit (u ''Husband'')]], any_lazy, Alt [[Lit (u ''Name'')]], any_lazy,
      Lit (u '':''), Grp 1 [any_lazy], Alt [[ws, Lit (u ''DOB'')], [ws, Lit (u ''Date'')], [ws, Eos]]]"

text \<open>\<open>r'(?:DOB|Birth).*?(\d{4})'\<close>, \<open>re.IGNORECASE\<close>\<close>

definition dob_rx :: "rx list" where
  "dob_rx = [Alt [[Lit (u ''DOB'')], [Lit (u ''Birth'')]], any_lazy, Grp 1 [digits 4]]"

text \<open>\<open>r'(\d{10})'\<close> and \<open>r'(\d{12})'\<close>\<close>

definition mobile_rx :: "rx list" where
  "mobile_rx = [Grp 1 [digits 10]]"

definition uid_rx :: "rx list" where
  "uid_rx = [Grp 1 [digits 12]]"

text \<open>\<open>r'Address.*?:(.*?)(?:\s*Phone|\s*Mobile|\s*$)'\<close>, \<open>re.IGNORECASE\<close>\<close>

definition address_rx :: "rx list" where
  "address_rx =
     [Lit (u ''Address''), any_lazy, Lit (u '':''), Grp 1 [any_lazy],
      Alt [[ws, Lit (u ''Phone'')], [ws, Lit (u ''Mobile'')], [ws, Eos]]]"

definition dob_value :: "ucd \<Rightarrow> ustring \<Rightarrow> exn + ustring" where
  "dob_value U full_text =
     (case re_search U IGNORECASE dob_rx full_text of
        Some m \<Rightarrow>
          (case py_int U (match_group m 1) of
             Inl e \<Rightarrow> Inl e
           | Inr year \<Rightarrow> Inr (if 1900 \<le> year \<and> year \<le> 2010 then py_str_int year else []))
      | None \<Rightarrow> Inr [])"

definition first_group :: "ucd \<Rightarrow> rx list \<Rightarrow> ustring \<Rightarrow> ustring" where
  "first_group U p full_text =
     (case re_search U no_flags p full_text of Some m \<Rightarrow> match_group m 1 | None \<Rightarrow> [])"

definition extract_complainant :: "ucd \<Rightarrow> fragment list \<Rightarrow> ustring \<Rightarrow> exn + (string \<times> pyval) list" where
  "extract_complainant U ocr_data full_text =
     (let name = or_empty (span_rule U IGNORECASE name_rx 2 100 full_text);
          father_name = or_empty (span_rule U IGNORECASE father_rx 2 100 full_text)
      in case dob_value U full_text of
           Inl e \<Rightarrow> Inl e
         | Inr dob \<Rightarrow>
             Inr [(''Name'', PStr name),
                  (''FatherOrHusbandName'', PStr father_name),
                  (''DOB_YearOfBirth'', PStr dob),
                  (''Nationality'', PStr bharat),
                  (''UIDNo'', PStr (first_group U uid_rx full_text)),
                  (''PassportNo'', PStr []),
                  (''IDDetails'', PList []),
                  (''Occupation'', PStr []),
                  (''Addresses'',
                     (case span_rule U IGNORECASE address_rx 5 200 full_text of
                        Some address \<Rightarrow>
                          PList [PDict [(''Type'', PStr (u ''Present Address'')), (''Address'', PStr address)]]
                      | None \<Rightarrow> PList [])),
                  (''PhoneNumber'', PStr (first_group U mobile_rx full_text))])"

subsection \<open>\<open>_extract_accused\<close>\<close>

definition aropi :: ustring where
  "aropi = [2310, 2352, 2379, 2346, 2368]"

definition naav :: ustring where
  "naav = [2344, 2366, 2357]"

definition upnaav :: ustring where
  "upnaav = [2313, 2346, 2344, 2366, 2357]"

definition accused_entry :: "ustring \<Rightarrow> pyval" where
  "accused_entry name =
     PDict [(''Name'', PStr name), (''Alias'', PStr []), (''RelativeName'', PStr []),
            (''PresentAddress'', PStr [])]"

text \<open>
  The class defines \<open>_extract_accused\<close> twice. The first definition walks the fragments:
  a fragment containing \<open>Accused\<close> opens a block, and the first later fragment longer
  than 3 characters that is not a \<open>Name\<close> label becomes the name of the block. Its state
  is the list so far, \<open>accused_started\<close>, and the name of the open block, if one is open.
\<close>

fun accused_loop :: "fragment list \<Rightarrow> pyval list \<Rightarrow> bool \<Rightarrow> ustring option \<Rightarrow> pyval list" where
  "accused_loop [] accused_list accused_started current_accused =
     (case current_accused of
        Some name \<Rightarrow> (if name \<noteq> [] then accused_list @ [accused_entry name] else accused_list)
      | None \<Rightarrow> accused_list)"
| "accused_loop (item # rest) accused_list accused_started current_accused =
     (let t = frag_text item in
      if py_in (u ''Accused'') t \<or> py_in aropi t
      then accused_loop rest
             (case current_accused of
                Some name \<Rightarrow> accused_list @ [accused_entry name]
              | None \<Rightarrow> accused_list)
             True (Some [])
      else if accused_started \<and> current_accused \<noteq> None
      then (if py_in (u ''Name'') t \<or> py_in naav t
            then accused_loop rest accused_list accused_started current_accused
            else if t \<noteq> [] \<and> length t > 3 \<and> current_accused = Some []
            then accused_loop rest accused_list accused_started (Some t)
            else accused_loop rest accused_list accused_started current_accused)
      else accused_loop rest accused_list accused_started current_accused)"

definition extract_accused_first :: "fragment list \<Rightarrow> pyval list" where
  "extract_accused_first ocr_data = accused_loop ocr_data [] False None"

text \<open>
  The second definition replaces the first in the class, so it is the method that
  \<open>extract_fields\<close> calls:
  \<open>r'(?:Accused|...).*?(?:Name|...).*?:(.*?)(?:Alias|...|$)'\<close>, \<open>re.IGNORECASE\<close>, on the
  joined text.
\<close>

definition accused_rx :: "rx list" where
  "accused_rx =
     [Alt [[Lit (u ''Accused'')], [Lit aropi]], any_lazy, Alt [[Lit (u ''Name'')], [Lit naav]], any_lazy,
      Lit (u '':''), Grp 1 [any_lazy], Alt [[Lit (u ''Alias'')], [Lit upnaav], [Eos]]]"

definition extract_accused :: "ucd \<Rightarrow> fragment list \<Rightarrow> pyval list" where
  "extract_accused U ocr_data =
     (let full_text = py_join (u '' '') (map frag_text ocr_data);
          accused_matches = re_findall U IGNORECASE accused_rx full_text
      in map (\<lambda>name. accused_entry (py_strip name))
             (filter (\<lambda>name. py_strip name \<noteq> []) accused_matches))"

subsection \<open>\<open>_extract_occurrence\<close>\<close>

text \<open>\<open>r'Day.*?:(.*?)(?:\s*Date|\s*$)'\<close>, \<open>re.IGNORECASE\<close>\<close>

definition day_rx :: "rx list" where
  "day_rx = [Lit (u ''Day''), any_lazy, Lit (u '':''), Grp 1 [any_lazy],
             Alt [[ws, Lit (u ''Date'')], [ws, Eos]]]"

text \<open>\<open>r'(\d{2}/\d{2}/\d{4})'\<close> and \<open>r'(\d{2}:\d{2})'\<close>\<close>

definition date_rx :: "rx list" where
  "date_rx = [Grp 1 [digits 2, Lit (u ''/''), digits 2, Lit (u ''/''), digits 4]]"

definition time_rx :: "rx list" where
  "time_rx = [Grp 1 [digits 2, Lit (u '':''), digits 2]]"

text \<open>\<open>r'Time.*?Period.*?:(.*?)(?:\s*Time|\s*$)'\<close>, \<open>re.IGNORECASE\<close>\<close>

definition time_period_rx :: "rx list" where
  "time_period_rx =
     [Lit (u ''Time''), any_lazy, Lit (u ''Period''), any_lazy, Lit (u '':''), Grp 1 [any_lazy],
      Alt [[ws, Lit (u ''Time'')], [ws, Eos]]]"

definition nth_or_empty :: "ustring list \<Rightarrow> nat \<Rightarrow> ustring" where
  "nth_or_empty xs i = (if length xs \<ge> i + 1 then xs ! i else [])"

definition extract_occurrence :: "ucd \<Rightarrow> fragment list \<Rightarrow> ustring \<Rightarrow> (string \<times> pyval) list" where
  "extract_occurrence U ocr_data full_text =
     (let dates = re_findall U no_flags date_rx full_text;
          times = re_findall U no_flags time_rx full_text
      in [(''Day'', PStr (or_empty (span_rule U IGNORECASE day_rx 2 20 full_text))),
          (''DateFrom'', PStr (nth_or_empty dates 0)),
          (''DateTo'', PStr (nth_or_empty dates 1)),
          (''TimePeriod'', PStr (or_empty (span_rule U IGNORECASE time_period_rx 1 50 full_text))),
          (''TimeFrom'', PStr (nth_or_empty times 0)),
          (''TimeTo'', PStr (nth_or_empty times 1))])"

subsection \<open>\<open>_extract_acts_sections\<close>\<close>

text \<open>\<open>r'(?:Section|BNS).*?(\d+)'\<close>, \<open>re.IGNORECASE\<close>, and \<open>r'\b(\d{2,3})\b'\<close>\<close>

definition section_rx :: "rx list" where
  "section_rx = [Alt [[Lit (u ''Section'')], [Lit (u ''BNS'')]], any_lazy, Grp 1 [Rep CDigit 1 None True]]"

definition number_rx :: "rx list" where
  "number_rx = [Wb, Grp 1 [Rep CDigit 2 (Some 3) True], Wb]"

definition bns_act :: ustring where
  "bns_act = [2349, 2366, 2352, 2340, 2368, 2351] @ u '' '' @ [2344, 2381, 2351, 2366, 2351] @ u '' '' @ [2360, 2306, 2361, 2367, 2340, 2366] @ u '' ('' @ [2348, 2368] @ u '' '' @ [2319, 2344] @ u '' '' @ [2319, 2360] @ u ''), 2023''"

definition act_entry :: "ustring \<Rightarrow> pyval" where
  "act_entry sec = PDict [(''Act'', PStr bns_act), (''Section'', PStr sec)]"

text \<open>The fallback loop: the first number from 100 to 511, then \<open>break\<close>.\<close>

fun first_plausible_section :: "ucd \<Rightarrow> ustring list \<Rightarrow> exn + pyval list" where
  "first_plausible_section U [] = Inr []"
| "first_plausible_section U (num # rest) =
     (case py_int U num of
        Inl e \<Rightarrow> Inl e
      | Inr num_int \<Rightarrow>
          if 100 \<le> num_int \<and> num_int \<le> 511 then Inr [act_entry num]
          else first_plausible_section U rest)"

definition extract_acts_sections :: "ucd \<Rightarrow> fragment list \<Rightarrow> ustring \<Rightarrow> exn + pyval list" where
  "extract_acts_sections U ocr_data full_text =
     (let acts_sections = map (\<lambda>sec. act_entry (py_strip sec))
                              (re_findall U IGNORECASE section_rx full_text)
      in if acts_sections = []
         then first_plausible_section U (re_findall U no_flags number_rx full_text)
         else Inr acts_sections)"

subsection \<open>\<open>_extract_place\<close>\<close>

text \<open>
  \<open>r'Direction.*?:(.*?)(?:\s*Distance|\s*Beat|\s*$)'\<close>,
  \<open>r'Distance.*?:(.*?)(?:\s*Beat|\s*Address|\s*$)'\<close>,
  \<open>r'Beat.*?:(.*?)(?:\s*Address|\s*$)'\<close> and
  \<open>r'Address.*?:(.*?)(?:\s*District|\s*State|\s*$)'\<close>, all with \<open>re.IGNORECASE\<close>
\<close>

definition direction_rx :: "rx list" where
  "direction_rx =
     [Lit (u ''Direction''), any_lazy, Lit (u '':''), Grp 1 [any_lazy],
      Alt [[ws, Lit (u ''Distance'')], [ws, Lit (u ''Beat'')], [ws, Eos]]]"

definition distance_rx :: "rx list" where
  "distance_rx =
     [Lit (u ''Distance''), any_lazy, Lit (u '':''), Grp 1 [any_lazy],
      Alt [[ws, Lit (u ''Beat'')], [ws, Lit (u ''Address'')], [ws, Eos]]]"

definition beat_rx :: "rx list" where
  "beat_rx =
     [Lit (u ''Beat''), any_lazy, Lit (u '':''), Grp 1 [any_lazy],
      Alt [[ws, Lit (u ''Address'')], [ws, Eos]]]"

definition place_address_rx :: "rx list" where
  "place_address_rx =
     [Lit (u ''Address''), any_lazy, Lit (u '':''), Grp 1 [any_lazy],
      Alt [[ws, Lit (u ''District'')], [ws, Lit (u ''State'')], [ws, Eos]]]"

definition extract_place :: "ucd \<Rightarrow> fragment list \<Rightarrow> ustring \<Rightarrow> (string \<times> pyval) list" where
  "extract_place U ocr_data full_text =
     [(''DirectionDistanceFromPS'',
         PDict [(''Direction'', PStr (or_empty (span_rule U IGNORECASE direction_rx 2 100 full_text))),
                (''Distance'', PStr (or_empty (span_rule U IGNORECASE distance_rx 1 50 full_text)))]),
      (''BeatNo'', PStr (or_empty (span_rule U IGNORECASE beat_rx 0 20 full_text))),
      (''Address'', PStr (or_empty (span_rule U IGNORECASE place_address_rx 5 200 full_text))),
      (''DistrictState'', PStr [])]"

subsection \<open>\<open>_extract_action_taken\<close>\<close>

text \<open>
  \<open>r'(?:Officer|Name).*?:(.*?)(?:\s*Rank|\s*$)'\<close>, \<open>r'Rank.*?:(.*?)(?:\s*No|\s*$)'\<close> and
  \<open>r'No.*?:(.*?)(?:\s*$)'\<close>, all with \<open>re.IGNORECASE\<close>
\<close>

definition officer_rx :: "rx list" where
  "officer_rx =
     [Alt [[Lit (u ''Officer'')], [Lit (u ''Name'')]], any_lazy, Lit (u '':''), Grp 1 [any_lazy],
      Alt [[ws, Lit (u ''Rank'')], [ws, Eos]]]"

definition rank_rx :: "rx list" where
  "rank_rx =
     [Lit (u ''Rank''), any_lazy, Lit (u '':''), Grp 1 [any_lazy],
      Alt [[ws, Lit (u ''No'')], [ws, Eos]]]"

definition officer_no_rx :: "rx list" where
  "officer_no_rx = [Lit (u ''No''), any_lazy, Lit (u '':''), Grp 1 [any_lazy], Alt [[ws, Eos]]]"

definition extract_action_taken :: "ucd \<Rightarrow> fragment list \<Rightarrow> ustring \<Rightarrow> (string \<times> pyval) list" where
  "extract_action_taken U ocr_data full_text =
     [(''RegisteredCaseInvestigation'',
         PDict [(''OfficerName'', PStr (or_empty (span_rule U IGNORECASE officer_rx 2 100 full_text))),
                (''Rank'', PStr (or_empty (span_rule U IGNORECASE rank_rx 2 50 full_text))),
                (''No'', PStr (or_empty (span_rule U IGNORECASE officer_no_rx 0 20 full_text)))]),
      (''DirectedNameOfIO'', PStr []),
      (''DirectedRank'', PStr []),
      (''DirectedNo'', PStr []),
      (''RefusedInvestigationDueTo'', PStr []),
      (''TransferredPS'', PStr []),
      (''TransferredDistrict'', PStr []),
      (''ROAC'', PStr [])]"

subsection \<open>\<open>_extract_first_information\<close>\<close>

text \<open>
  \<open>r'(?:First\s*Information\s*Contents|...\s*...\s*...).*?:(.*?)(?:Action\s*Taken|$)'\<close>,
  \<open>re.IGNORECASE | re.DOTALL\<close>
\<close>

definition contents_rx :: "rx list" where
  "contents_rx =
     [Alt [[Lit (u ''First''), ws, Lit (u ''Information''), ws, Lit (u ''Contents'')],
           [Lit [2346, 2381, 2352, 2341, 2350], ws, Lit [2326, 2348, 2352], ws,
            Lit [2309, 2306, 2340, 2352, 2381, 2327, 2340]]],
      any_lazy, Lit (u '':''), Grp 1 [any_lazy],
      Alt [[Lit (u ''Action''), ws, Lit (u ''Taken'')], [Eos]]]"

definition extract_first_information :: "ucd \<Rightarrow> fragment list \<Rightarrow> ustring \<Rightarrow> ustring" where
  "extract_first_information U ocr_data full_text =
     (case re_search U IGNORECASE_DOTALL contents_rx full_text of
        Some m \<Rightarrow> py_strip (match_group m 1)
      | None \<Rightarrow> [])"

subsection \<open>\<open>extract_fields\<close>\<close>

text \<open>The default-filled record that \<open>extract_fields\<close> starts from.\<close>

definition skeleton_fir :: "(string \<times> pyval) list" where
  "skeleton_fir =
     [(''District'', PStr []),
      (''PoliceStation'', PStr []),
      (''Year'', PInt 0),
      (''FIRNo'', PStr []),
      (''DateTimeOfFIR'', PStr []),
      (''ActsSections'', PList []),
      (''OccurrenceOfOffence'',
         PDict [(''Day'', PStr []), (''DateFrom'', PStr []), (''DateTo'', PStr []),
                (''TimePeriod'', PStr []), (''TimeFrom'', PStr []), (''TimeTo'', PStr [])]),
      (''InfoReceivedAtPS'', PDict [(''Date'', PStr []), (''Time'', PStr [])]),
      (''GeneralDiaryReference'', PDict [(''EntryNo'', PStr []), (''DateTime'', PStr [])]),
      (''TypeOfInformation'', PStr []),
      (''PlaceOfOccurrence'',
         PDict [(''DirectionDistanceFromPS'', PDict [(''Direction'', PStr []), (''Distance'', PStr [])]),
                (''BeatNo'', PStr []),
                (''Address'', PStr []),
                (''DistrictState'', PStr [])])]"

definition skeleton_complainant :: "(string \<times> pyval) list" where
  "skeleton_complainant =
     [(''Name'', PStr []),
      (''FatherOrHusbandName'', PStr []),
      (''DOB_YearOfBirth'', PStr []),
      (''Nationality'', PStr bharat),
      (''UIDNo'', PStr []),
      (''PassportNo'', PStr []),
      (''IDDetails'', PList []),
      (''Occupation'', PStr []),
      (''Addresses'', PList []),
      (''PhoneNumber'', PStr [])]"

definition skeleton_action_taken :: "(string \<times> pyval) list" where
  "skeleton_action_taken =
     [(''RegisteredCaseInvestigation'',
         PDict [(''OfficerName'', PStr []), (''Rank'', PStr []), (''No'', PStr [])]),
      (''DirectedNameOfIO'', PStr []),
      (''DirectedRank'', PStr []),
      (''DirectedNo'', PStr []),
      (''RefusedInvestigationDueTo'', PStr []),
      (''TransferredPS'', PStr []),
      (''TransferredDistrict'', PStr []),
      (''ROAC'', PStr [])]"

definition skeleton :: "(string \<times> pyval) list" where
  "skeleton =
     [(''FIR'', PDict skeleton_fir),
      (''ComplainantInformant'', PDict skeleton_complainant),
      (''AccusedDetails'', PList []),
      (''PropertyOfInterest'', PList []),
      (''TotalValueOfPropertyInRs'', PStr []),
      (''Inquest_UDB_CaseNo'', PList []),
      (''FirstInformationContents'', PStr []),
      (''ActionTaken'', PDict skeleton_action_taken),
      (''ComplainantSignature'', PDict [(''Name'', PStr []), (''Rank'', PStr []), (''No'', PStr [])]),
      (''DateTimeOfDispatchToCourt'', PStr []),
      (''AccusedPhysicalDetails'', PList [])]"

text \<open>
  \<open>d[k].update(e)\<close> and \<open>d[k][k2] = v\<close> on the record: a missing key raises
  \<open>KeyError\<close>, a value that is not a dict \<open>AttributeError\<close> or \<open>TypeError\<close>.
\<close>

definition update_at :: "string \<Rightarrow> (string \<times> pyval) list \<Rightarrow> (string \<times> pyval) list \<Rightarrow> exn + (string \<times> pyval) list" where
  "update_at k e d =
     (case map_of d k of
        None \<Rightarrow> Inl KeyError
      | Some (PDict sub) \<Rightarrow> Inr (AList.update k (PDict (py_update sub e)) d)
      | Some _ \<Rightarrow> Inl AttributeError)"

definition set_at :: "string \<Rightarrow> string \<Rightarrow> pyval \<Rightarrow> (string \<times> pyval) list \<Rightarrow> exn + (string \<times> pyval) list" where
  "set_at k k2 v d =
     (case map_of d k of
        None \<Rightarrow> Inl KeyError
      | Some (PDict sub) \<Rightarrow> Inr (AList.update k (PDict (AList.update k2 v sub)) d)
      | Some _ \<Rightarrow> Inl TypeError)"

text \<open>
  The statements of the \<open>try\<close> block, in order. Each takes the record and gives the
  record after the statement, or the exception it raises. A statement calls the routine
  of its field group and stores the result; \<open>try_statements\<close> takes what the eight
  routines return or raise.
\<close>

definition try_statements ::
  "exn + (string \<times> pyval) list \<Rightarrow> exn + (string \<times> pyval) list \<Rightarrow> exn + pyval list
     \<Rightarrow> exn + (string \<times> pyval) list \<Rightarrow> exn + pyval list \<Rightarrow> exn + (string \<times> pyval) list
     \<Rightarrow> exn + (string \<times> pyval) list \<Rightarrow> exn + ustring
     \<Rightarrow> ((string \<times> pyval) list \<Rightarrow> exn + (string \<times> pyval) list) list" where
  "try_statements fir_info complainant accused occurrence acts_sections place action_taken contents =
     [\<lambda>d. case fir_info of Inl e \<Rightarrow> Inl e | Inr v \<Rightarrow> update_at ''FIR'' v d,
      \<lambda>d. case complainant of Inl e \<Rightarrow> Inl e | Inr v \<Rightarrow> update_at ''ComplainantInformant'' v d,
      \<lambda>d. case accused of Inl e \<Rightarrow> Inl e | Inr v \<Rightarrow> Inr (AList.update ''AccusedDetails'' (PList v) d),
      \<lambda>d. case occurrence of Inl e \<Rightarrow> Inl e | Inr v \<Rightarrow> set_at ''FIR'' ''OccurrenceOfOffence'' (PDict v) d,
      \<lambda>d. case acts_sections of Inl e \<Rightarrow> Inl e | Inr v \<Rightarrow> set_at ''FIR'' ''ActsSections'' (PList v) d,
      \<lambda>d. case place of Inl e \<Rightarrow> Inl e | Inr v \<Rightarrow> set_at ''FIR'' ''PlaceOfOccurrence'' (PDict v) d,
      \<lambda>d. case action_taken of Inl e \<Rightarrow> Inl e | Inr v \<Rightarrow> Inr (AList.update ''ActionTaken'' (PDict v) d),
      \<lambda>d. case contents of Inl e \<Rightarrow> Inl e
           | Inr v \<Rightarrow> Inr (AList.update ''FirstInformationContents'' (PStr v) d)]"

definition field_steps ::
  "ucd \<Rightarrow> fragment list \<Rightarrow> ustring \<Rightarrow> ((string \<times> pyval) list \<Rightarrow> exn + (string \<times> pyval) list) list" where
  "field_steps U cleaned_ocr full_text =
     try_statements
       (extract_fir_info U cleaned_ocr full_text)
       (extract_complainant U cleaned_ocr full_text)
       (Inr (extract_accused U cleaned_ocr))
       (Inr (extract_occurrence U cleaned_ocr full_text))
       (extract_acts_sections U cleaned_ocr full_text)
       (Inr (extract_place U cleaned_ocr full_text))
       (Inr (extract_action_taken U cleaned_ocr full_text))
       (Inr (extract_first_information U cleaned_ocr full_text))"

text \<open>
  \<open>try: ... except Exception: logger.error(...)\<close>: the statements run in order; the
  first exception ends the block, and the record keeps what the statements before it
  have written. The result is the exception, if any, and the record.
\<close>

fun run_steps ::
  "((string \<times> pyval) list \<Rightarrow> exn + (string \<times> pyval) list) list \<Rightarrow> (string \<times> pyval) list
     \<Rightarrow> exn option \<times> (string \<times> pyval) list" where
  "run_steps [] d = (None, d)"
| "run_steps (f # fs) d = (case f d of Inl e \<Rightarrow> (Some e, d) | Inr d' \<Rightarrow> run_steps fs d')"

text \<open>
  The texts that reach the rules: the fragments above the confidence threshold,
  cleaned, and their texts joined by a space.
\<close>

definition cleaned_fragments :: "ucd \<Rightarrow> fragment list \<Rightarrow> fragment list" where
  "cleaned_fragments U ocr_data =
     clean_ocr_text U (filter (\<lambda>item. frag_confidence item > 3 / 10) ocr_data)"

definition full_text_of :: "ucd \<Rightarrow> fragment list \<Rightarrow> ustring" where
  "full_text_of U ocr_data = py_join (u '' '') (map frag_text (cleaned_fragments U ocr_data))"

text \<open>
  \<open>extract_fields\<close>: the exception of the \<open>try\<close> block is logged and dropped, and the
  record is returned. The method never reads \<open>self.patterns\<close>.
\<close>

definition try_block :: "ucd \<Rightarrow> fragment list \<Rightarrow> exn option \<times> (string \<times> pyval) list" where
  "try_block U ocr_data =
     run_steps (field_steps U (cleaned_fragments U ocr_data) (full_text_of U ocr_data)) skeleton"

definition extract_fields :: "ucd \<Rightarrow> service \<Rightarrow> fragment list \<Rightarrow> pyval" where
  "extract_fields U self ocr_data = PDict (snd (try_block U ocr_data))"

text \<open>Reading a field of the record by its path.\<close>

fun at_path :: "pyval \<Rightarrow> string list \<Rightarrow> pyval option" where
  "at_path v [] = Some v"
| "at_path (PDict d) (k # ks) = (case map_of d k of Some v \<Rightarrow> at_path v ks | None \<Rightarrow> None)"
| "at_path v (k # ks) = None"

text \<open>
  The key paths of a record, at every nesting level, and the values the specification
  calls defaults: the empty string, the empty list and zero.
\<close>

fun paths_of :: "pyval \<Rightarrow> string list list" where
  "paths_of (PDict d) = concat (map (\<lambda>kv. [fst kv] # map ((#) (fst kv)) (paths_of (snd kv))) d)"
| "paths_of v = []"

definition default_leaf :: "pyval \<Rightarrow> bool" where
  "default_leaf v = (v = PStr [] \<or> v = PList [] \<or> v = PInt 0)"

text \<open>
  The keys \<open>_extract_fir_info\<close> may set, and the record after a \<open>try\<close> block in
  which no statement has raised: the skeleton with the values of the field groups put in.
\<close>

definition fir_info_keys :: "string list" where
  "fir_info_keys = [''FIRNo'', ''DateTimeOfFIR'', ''District'', ''PoliceStation'', ''Year'', ''TypeOfInformation'']"

definition keys_within :: "string list \<Rightarrow> (string \<times> pyval) list \<Rightarrow> bool" where
  "keys_within ks d = (fst ` set d \<subseteq> set ks \<and> distinct (map fst d))"

definition before_year :: "ucd \<Rightarrow> ustring \<Rightarrow> (string \<times> pyval) list" where
  "before_year U ft = police_station_block U ft (district_block U ft (date_time_block U ft (fir_no_block U ft [])))"

definition filled_record ::
  "(string \<times> pyval) list \<Rightarrow> (string \<times> pyval) list \<Rightarrow> pyval list \<Rightarrow> ustring \<Rightarrow> (string \<times> pyval) list
     \<Rightarrow> (string \<times> pyval) list" where
  "filled_record fir complainant accused contents action_taken =
     [(''FIR'', PDict fir),
      (''ComplainantInformant'', PDict complainant),
      (''AccusedDetails'', PList accused),
      (''PropertyOfInterest'', PList []),
      (''TotalValueOfPropertyInRs'', PStr []),
      (''Inquest_UDB_CaseNo'', PList []),
      (''FirstInformationContents'', PStr contents),
      (''ActionTaken'', PDict action_taken),
      (''ComplainantSignature'', PDict [(''Name'', PStr []), (''Rank'', PStr []), (''No'', PStr [])]),
      (''DateTimeOfDispatchToCourt'', PStr []),
      (''AccusedPhysicalDetails'', PList [])]"

definition filled_fir ::
  "(string \<times> pyval) list \<Rightarrow> (string \<times> pyval) list \<Rightarrow> pyval list \<Rightarrow> (string \<times> pyval) list
     \<Rightarrow> (string \<times> pyval) list" where
  "filled_fir fir_info occurrence acts place =
     AList.update ''PlaceOfOccurrence'' (PDict place)
       (AList.update ''ActsSections'' (PList acts)
         (AList.update ''OccurrenceOfOffence'' (PDict occurrence) (py_update skeleton_fir fir_info)))"

text \<open>Sample inputs: a fragment with a text, recognised with confidence 0.9.\<close>

definition frag :: "ustring \<Rightarrow> fragment" where
  "frag t = \<lparr> frag_text = t, frag_confidence = 9 / 10, frag_bbox = [(0, 0), (1, 0), (1, 1), (0, 1)] \<rparr>"

section \<open>Properties of the text normalisation\<close>

lemma replace_from_absent:
  "\<forall>t. suffix t s \<longrightarrow> \<not> prefix old t \<or> t = [] \<Longrightarrow> replace_from old new 0 s = s"
proof (induction s)
  case Nil
  then show ?case by simp
next
  case (Cons c cs)
  have "\<not> prefix old (c # cs)" using Cons.prems by (auto simp: suffix_def)
  moreover have "replace_from old new 0 cs = cs"
    using Cons.prems by (intro Cons.IH) (auto simp: suffix_Cons)
  ultimately show ?case by simp
qed

lemma py_in_suffix: "py_in sub s \<longleftrightarrow> (\<exists>t. suffix t s \<and> prefix sub t)"
  by (induction s) (auto simp: suffix_Cons)

lemma py_replace_absent: "old \<noteq> [] \<Longrightarrow> \<not> py_in old s \<Longrightarrow> py_replace old new s = s"
  unfolding py_replace_def
  by (simp add: py_in_suffix replace_from_absent)

lemma apply_corrections_absent:
  "list_all (\<lambda>kv. fst kv \<noteq> [] \<and> \<not> py_in (fst kv) s) tab \<Longrightarrow> apply_corrections tab s = s"
  unfolding apply_corrections_def
  by (induction tab) (simp_all add: py_replace_absent)

lemma py_dict_keys: "fst ` set (foldl (\<lambda>d kv. AList.update (fst kv) (snd kv) d) d0 items) = fst ` set d0 \<union> fst ` set items"
  by (induction items arbitrary: d0) (auto simp: dom_update)

lemma py_dict_distinct: "distinct (map fst d0) \<Longrightarrow> distinct (map fst (foldl (\<lambda>d kv. AList.update (fst kv) (snd kv) d) d0 items))"
  by (induction items arbitrary: d0) (auto simp: distinct_update)

lemma py_dict_map_of: "map_of (foldl (\<lambda>d kv. AList.update (fst kv) (snd kv) d) d0 items) = map_of d0 ++ map_of (rev items)"
  by (induction items arbitrary: d0) (simp_all add: update_conv' fun_eq_iff map_add_def split: option.splits)

lemma apply_corrections_single:
  assumes d: "distinct (map fst tab)" and kv: "(k, v) \<in> set tab"
    and before: "list_all (\<lambda>kv. fst kv \<noteq> k \<longrightarrow> fst kv \<noteq> [] \<and> \<not> py_in (fst kv) s) tab"
    and after: "list_all (\<lambda>kv. fst kv \<noteq> [] \<and> \<not> py_in (fst kv) (py_replace k v s)) tab"
  shows "apply_corrections tab s = py_replace k v s"
proof -
  from kv obtain t1 t2 where t: "tab = t1 @ (k, v) # t2" by (auto dest: split_list)
  have k1: "\<forall>kv\<in>set t1. fst kv \<noteq> k" using d unfolding t by auto
  have a1: "apply_corrections t1 s = s"
    using before k1 unfolding t by (intro apply_corrections_absent) (auto simp: list_all_iff)
  have a2: "apply_corrections t2 (py_replace k v s) = py_replace k v s"
    using after unfolding t by (intro apply_corrections_absent) (auto simp: list_all_iff)
  show ?thesis
    unfolding t using a1 a2 by (simp add: apply_corrections_def)
qed

lemma corrections_keys: "fst ` set corrections = fst ` set corrections_display"
  unfolding corrections_def py_dict_def by (simp add: py_dict_keys)

lemma corrections_distinct: "distinct (map fst corrections)"
  unfolding corrections_def py_dict_def by (rule py_dict_distinct) simp

lemma list_all_corrections:
  assumes "list_all (\<lambda>kv. P (fst kv)) corrections_display"
  shows "list_all (\<lambda>kv. P (fst kv)) corrections"
proof -
  have "P (fst kv)" if "kv \<in> set corrections" for kv
  proof -
    from that have "fst kv \<in> fst ` set corrections" by (rule imageI)
    then have "fst kv \<in> fst ` set corrections_display" by (simp only: corrections_keys)
    then obtain kv' where "kv' \<in> set corrections_display" "fst kv = fst kv'" by (rule imageE)
    with assms show ?thesis by (simp add: list_all_iff)
  qed
  then show ?thesis by (simp add: list_all_iff)
qed

lemma corrections_entry:
  assumes "(k, v) \<in> set corrections_display"
    and "list_all (\<lambda>kv. fst kv = k \<longrightarrow> snd kv = v) corrections_display"
  shows "(k, v) \<in> set corrections"
proof -
  have "map_of (rev corrections_display) k = Some v"
  proof -
    from assms(1) have "k \<in> fst ` set (rev corrections_display)" by force
    then obtain w where w: "map_of (rev corrections_display) k = Some w"
      by (meson domD domI map_of_eq_None_iff not_None_eq)
    then have "(k, w) \<in> set corrections_display" by (auto dest: map_of_SomeD)
    with assms(2) have "w = v" by (auto simp: list_all_iff)
    with w show ?thesis by simp
  qed
  then have "map_of corrections k = Some v"
    unfolding corrections_def py_dict_def by (simp add: py_dict_map_of)
  then show ?thesis by (rule map_of_SomeD)
qed

lemma corrections_absent:
  assumes "list_all (\<lambda>kv. fst kv \<noteq> [] \<and> \<not> py_in (fst kv) s) corrections_display"
  shows "apply_corrections corrections s = s"
  by (rule apply_corrections_absent) (rule list_all_corrections [where P = "\<lambda>k. k \<noteq> [] \<and> \<not> py_in k s", OF assms])

lemma corrections_single:
  assumes e: "(k, v) \<in> set corrections_display"
    and a: "list_all (\<lambda>kv. fst kv = k \<longrightarrow> snd kv = v) corrections_display"
    and b: "list_all (\<lambda>kv. fst kv \<noteq> k \<longrightarrow> fst kv \<noteq> [] \<and> \<not> py_in (fst kv) s) corrections_display"
    and c: "list_all (\<lambda>kv. fst kv \<noteq> [] \<and> \<not> py_in (fst kv) (py_replace k v s)) corrections_display"
  shows "apply_corrections corrections s = py_replace k v s"
proof (rule apply_corrections_single)
  show "distinct (map fst corrections)" by (rule corrections_distinct)
  show "(k, v) \<in> set corrections" by (rule corrections_entry [OF e a])
  show "list_all (\<lambda>kv. fst kv \<noteq> k \<longrightarrow> fst kv \<noteq> [] \<and> \<not> py_in (fst kv) s) corrections"
    by (rule list_all_corrections [where P = "\<lambda>x. x \<noteq> k \<longrightarrow> x \<noteq> [] \<and> \<not> py_in x s", OF b])
  show "list_all (\<lambda>kv. fst kv \<noteq> [] \<and> \<not> py_in (fst kv) (py_replace k v s)) corrections"
    by (rule list_all_corrections [where P = "\<lambda>x. x \<noteq> [] \<and> \<not> py_in x (py_replace k v s)", OF c])
qed

lemma foldl_update_keys:
  "\<exists>R. map fst (foldl (\<lambda>d kv. AList.update (fst kv) (snd kv) d) d0 items) = map fst d0 @ R
       \<and> set R \<subseteq> fst ` set items - fst ` set d0"
proof (induction items arbitrary: d0)
  case Nil
  then show ?case by simp
next
  case (Cons x items)
  obtain R where R: "map fst (foldl (\<lambda>d kv. AList.update (fst kv) (snd kv) d) (AList.update (fst x) (snd x) d0) items)
      = map fst (AList.update (fst x) (snd x) d0) @ R"
    "set R \<subseteq> fst ` set items - fst ` set (AList.update (fst x) (snd x) d0)"
    using Cons.IH by blast
  show ?case
  proof (cases "fst x \<in> fst ` set d0")
    case True
    then have "map fst (AList.update (fst x) (snd x) d0) = map fst d0"
      by (simp add: update_keys)
    with R True show ?thesis by (intro exI[of _ R]) (auto simp: dom_update)
  next
    case False
    then have "map fst (AList.update (fst x) (snd x) d0) = map fst d0 @ [fst x]"
      by (simp add: update_keys)
    with R False show ?thesis by (intro exI[of _ "fst x # R"]) (auto simp: dom_update)
  qed
qed

lemma apply_corrections_append:
  "apply_corrections (t1 @ t2) s = apply_corrections t2 (apply_corrections t1 s)"
  by (simp add: apply_corrections_def)

lemma py_dict_split:
  assumes k: "k \<notin> fst ` set A"
  shows "\<exists>d1 v' d2. py_dict (A @ (k, v0) # B) = d1 @ (k, v') # d2
           \<and> fst ` set d1 = fst ` set A \<and> fst ` set d2 \<subseteq> fst ` set B - (fst ` set A \<union> {k})"
proof -
  let ?upd = "\<lambda>d kv. AList.update (fst kv) (snd kv) d"
  let ?dA = "foldl ?upd [] A"
  let ?dk = "AList.update k v0 ?dA"
  let ?d = "py_dict (A @ (k, v0) # B)"
  have kA: "fst ` set ?dA = fst ` set A" by (simp add: py_dict_keys)
  have keys_dk: "map fst ?dk = map fst ?dA @ [k]"
    using k kA by (simp add: update_keys)
  have d: "?d = foldl ?upd ?dk B" by (simp add: py_dict_def)
  obtain R where R: "map fst ?d = map fst ?dk @ R" "set R \<subseteq> fst ` set B - fst ` set ?dk"
    unfolding d using foldl_update_keys[of ?dk B] by blast
  let ?n = "length ?dA"
  have len: "?n < length ?d"
    using arg_cong[OF R(1), of length] keys_dk by simp
  have m: "map fst ?d = map fst ?dA @ k # R" using R(1) keys_dk by simp
  have split: "?d = take ?n ?d @ (?d ! ?n) # drop (Suc ?n) ?d"
    using len by (simp add: id_take_nth_drop)
  have t: "map fst (take ?n ?d) = map fst ?dA"
    using arg_cong[OF m, of "take ?n"] by (simp add: take_map)
  have n: "fst (?d ! ?n) = k"
    using arg_cong[OF m, of "\<lambda>xs. xs ! ?n"] len by (simp add: nth_append)
  have dr: "map fst (drop (Suc ?n) ?d) = R"
    using arg_cong[OF m, of "drop (Suc ?n)"] by (simp add: drop_map)
  have s1: "fst ` set (take ?n ?d) = fst ` set A"
    using arg_cong[OF t, of set] kA by simp
  have s2: "fst ` set (drop (Suc ?n) ?d) \<subseteq> fst ` set B - (fst ` set A \<union> {k})"
    using arg_cong[OF dr, of set] R(2) kA by (auto simp: dom_update)
  from n have "?d ! ?n = (k, snd (?d ! ?n))" by (metis prod.collapse)
  with split have "?d = take ?n ?d @ (k, snd (?d ! ?n)) # drop (Suc ?n) ?d" by simp
  with s1 s2 show ?thesis by blast
qed

lemma corrections_single_at:
  assumes i: "i < length corrections_display"
    and k: "fst (corrections_display ! i) = k"
    and first: "list_all (\<lambda>kv. fst kv \<noteq> k \<and> fst kv \<noteq> [] \<and> \<not> py_in (fst kv) s) (take i corrections_display)"
    and val: "list_all (\<lambda>kv. fst kv = k \<longrightarrow> snd kv = v) (drop i corrections_display)"
    and after: "list_all (\<lambda>kv. fst kv \<noteq> [] \<and> (fst kv = k \<or> fst kv \<in> fst ` set (take i corrections_display)
                      \<or> \<not> py_in (fst kv) (py_replace k v s))) (drop (Suc i) corrections_display)"
  shows "apply_corrections corrections s = py_replace k v s"
proof -
  let ?A = "take i corrections_display" and ?B = "drop (Suc i) corrections_display"
  let ?v0 = "snd (corrections_display ! i)"
  have disp: "corrections_display = ?A @ (k, ?v0) # ?B"
    using i k by (metis id_take_nth_drop prod.collapse)
  have kA: "k \<notin> fst ` set ?A" using first by (auto simp: list_all_iff)
  from py_dict_split[OF kA, of ?v0 ?B] obtain d1 v' d2 where
    d: "corrections = d1 @ (k, v') # d2" and k1: "fst ` set d1 = fst ` set ?A"
    and k2: "fst ` set d2 \<subseteq> fst ` set ?B - (fst ` set ?A \<union> {k})"
    unfolding corrections_def using disp by metis
  have "map_of corrections k = Some v'"
    using corrections_distinct unfolding d by (simp add: map_of_eq_Some_iff del: map_of_append)
  then have "map_of (rev corrections_display) k = Some v'"
    unfolding corrections_def py_dict_def by (simp add: py_dict_map_of)
  then have "(k, v') \<in> set corrections_display" by (auto dest: map_of_SomeD)
  then have "(k, v') \<in> set (drop i corrections_display)"
    using kA by (metis UnE append_take_drop_id fst_conv image_eqI set_append)
  with val have v: "v' = v" by (auto simp: list_all_iff)
  have a1: "apply_corrections d1 s = s"
  proof (rule apply_corrections_absent)
    show "list_all (\<lambda>kv. fst kv \<noteq> [] \<and> \<not> py_in (fst kv) s) d1"
      unfolding list_all_iff
    proof
      fix kv assume "kv \<in> set d1"
      then have "fst kv \<in> fst ` set ?A" using k1 by blast
      then obtain kv' where "kv' \<in> set ?A" "fst kv = fst kv'" by (rule imageE)
      with first show "fst kv \<noteq> [] \<and> \<not> py_in (fst kv) s" by (simp add: list_all_iff)
    qed
  qed
  have a2: "apply_corrections d2 (py_replace k v s) = py_replace k v s"
  proof (rule apply_corrections_absent)
    show "list_all (\<lambda>kv. fst kv \<noteq> [] \<and> \<not> py_in (fst kv) (py_replace k v s)) d2"
      unfolding list_all_iff
    proof
      fix kv assume "kv \<in> set d2"
      then have f: "fst kv \<in> fst ` set ?B" "fst kv \<notin> fst ` set ?A" "fst kv \<noteq> k" using k2 by blast+
      from f(1) obtain kv' where "kv' \<in> set ?B" "fst kv = fst kv'" by (rule imageE)
      with after f(2,3) show "fst kv \<noteq> [] \<and> \<not> py_in (fst kv) (py_replace k v s)"
        by (auto simp: list_all_iff)
    qed
  qed
  show ?thesis
    unfolding d v using a1 a2 by (simp add: apply_corrections_def)
qed

lemma replace_from_all:
  "list_all P s \<Longrightarrow> list_all P new \<Longrightarrow> list_all P (replace_from old new k s)"
  by (induction old new k s rule: replace_from.induct) simp_all

lemma py_replace_all:
  assumes "list_all P s" "list_all P new"
  shows "list_all P (py_replace old new s)"
proof (cases "old = []")
  case True
  then show ?thesis using assms by (auto simp: py_replace_def list_all_iff)
next
  case False
  then show ?thesis using assms by (simp add: py_replace_def replace_from_all)
qed

lemma apply_corrections_all:
  "list_all P s \<Longrightarrow> list_all (\<lambda>kv. list_all P (snd kv)) tab \<Longrightarrow> list_all P (apply_corrections tab s)"
  unfolding apply_corrections_def
  by (induction tab arbitrary: s) (simp_all add: py_replace_all)

lemma corrections_subset: "set corrections \<subseteq> set corrections_display"
proof
  fix kv assume "kv \<in> set corrections"
  then have "map_of corrections (fst kv) = Some (snd kv)"
    using corrections_distinct by simp
  then have "map_of (rev corrections_display) (fst kv) = Some (snd kv)"
    unfolding corrections_def py_dict_def by (simp add: py_dict_map_of)
  then show "kv \<in> set corrections_display" by (auto dest: map_of_SomeD)
qed

lemma display_values_allowed:
  "list_all (\<lambda>kv. list_all (noise_allowed U) (snd kv)) corrections_display"
  by (simp add: corrections_display_def u_def noise_allowed_def is_word_def is_ascii_letter_def is_space_def)

lemma display_keys_nonempty: "list_all (\<lambda>kv. fst kv \<noteq> []) corrections_display"
  by (simp add: corrections_display_def u_def)

lemma ws_ok_tl: "ws_ok (c # cs) \<Longrightarrow> ws_ok cs"
  by (cases cs) auto

lemma ws_ok_suffix: "ws_ok (xs @ ys) \<Longrightarrow> ws_ok ys"
  by (induction xs) (auto dest: ws_ok_tl)

lemma ws_ok_prefix: "ws_ok (xs @ ys) \<Longrightarrow> ws_ok xs"
proof (induction xs rule: ws_ok.induct)
  case 1
  then show ?case by simp
next
  case (2 c)
  then show ?case by (cases ys) auto
next
  case (3 c d cs)
  then show ?case by auto
qed

lemma collapse_ws_head:
  "s = [] \<or> \<not> is_space (hd s) \<Longrightarrow> collapse_ws s = [] \<or> \<not> is_space (hd (collapse_ws s))"
  by (cases s) auto

lemma ws_ok_Cons_space:
  "ws_ok t \<Longrightarrow> t = [] \<or> \<not> is_space (hd t) \<Longrightarrow> ws_ok (32 # t)"
  by (cases t) auto

lemma ws_ok_Cons_other: "ws_ok t \<Longrightarrow> \<not> is_space c \<Longrightarrow> ws_ok (c # t)"
  by (cases t) auto

lemma collapse_ws_ok: "ws_ok (collapse_ws s)"
proof (induction s rule: collapse_ws.induct)
  case 1
  then show ?case by simp
next
  case (2 c cs)
  show ?case
  proof (cases "is_space c")
    case True
    have "dropWhile is_space cs = [] \<or> \<not> is_space (hd (dropWhile is_space cs))"
      by (metis hd_dropWhile)
    then have "collapse_ws (dropWhile is_space cs) = [] \<or> \<not> is_space (hd (collapse_ws (dropWhile is_space cs)))"
      by (rule collapse_ws_head)
    with 2 True show ?thesis by (simp add: ws_ok_Cons_space)
  next
    case False
    with 2 show ?thesis by (simp add: ws_ok_Cons_other)
  qed
qed

lemma collapse_ws_fix: "ws_ok s \<Longrightarrow> collapse_ws s = s"
proof (induction s rule: collapse_ws.induct)
  case 1
  then show ?case by simp
next
  case (2 c cs)
  show ?case
  proof (cases "is_space c")
    case True
    with 2(3) have d: "dropWhile is_space cs = cs" by (cases cs) auto
    from 2(3) have "ws_ok cs" by (rule ws_ok_tl)
    with 2(1) True d have "collapse_ws cs = cs" by simp
    moreover from 2(3) True have "c = 32" by (cases cs) auto
    ultimately show ?thesis using True d by simp
  next
    case False
    from 2(3) have "ws_ok cs" by (rule ws_ok_tl)
    with 2(2) False show ?thesis by simp
  qed
qed

lemma py_strip_prefix_suffix: "\<exists>a b. s = a @ py_strip s @ b"
proof -
  let ?y = "dropWhile is_space s"
  have "s = takeWhile is_space s @ ?y" by simp
  moreover have "?y = rev (dropWhile is_space (rev ?y)) @ rev (takeWhile is_space (rev ?y))"
    by (metis rev_append rev_rev_ident takeWhile_dropWhile_id)
  ultimately show ?thesis unfolding py_strip_def by (metis append.assoc)
qed

lemma py_strip_ws_ok: "ws_ok s \<Longrightarrow> ws_ok (py_strip s)"
  using py_strip_prefix_suffix[of s] by (metis ws_ok_prefix ws_ok_suffix)

lemma py_strip_all: "list_all P s \<Longrightarrow> list_all P (py_strip s)"
  using py_strip_prefix_suffix[of s] by (metis list_all_append)

lemma py_strip_idem: "py_strip (py_strip s) = py_strip s"
proof -
  let ?y = "dropWhile is_space s"
  let ?x = "py_strip s"
  have r: "dropWhile is_space (rev ?x) = rev ?x"
    unfolding py_strip_def by (simp add: dropWhile_idem)
  have y: "?y = ?x @ rev (takeWhile is_space (rev ?y))"
    unfolding py_strip_def by (metis rev_append rev_rev_ident takeWhile_dropWhile_id)
  have "dropWhile is_space ?x = ?x"
  proof (cases "?x = []")
    case True
    then show ?thesis by simp
  next
    case False
    then have "hd ?x = hd ?y" using y by (metis hd_append2)
    moreover have "?y \<noteq> []" using False y by (metis append_is_Nil_conv)
    ultimately have "\<not> is_space (hd ?x)" by (metis hd_dropWhile)
    with False show ?thesis by (cases ?x) auto
  qed
  with r show ?thesis
    by (metis py_strip_def rev_rev_ident)
qed

lemmas clean_defs = clean_text_def py_strip_def is_space_def strip_noise_def noise_allowed_def
  is_word_def is_ascii_letter_def

lemma corrections_WEHe: "apply_corrections corrections (u ''WEHe'') = u ''WENo''"
proof -
  have "apply_corrections corrections (u ''WEHe'') = py_replace (u ''He'') (u ''No'') (u ''WEHe'')"
    by (rule corrections_single_at [where i = 89])
       (simp_all add: corrections_display_def u_def py_replace_def)
  then show ?thesis by (simp add: py_replace_def u_def)
qed

lemma corrections_WENo: "apply_corrections corrections (u ''WENo'') = u ''Addresso''"
proof -
  have "apply_corrections corrections (u ''WENo'') = py_replace (u ''WEN'') (u ''Address'') (u ''WENo'')"
    by (rule corrections_single_at [where i = 58])
       (simp_all add: corrections_display_def u_def py_replace_def)
  then show ?thesis by (simp add: py_replace_def u_def)
qed

text \<open>
  C9 as stated fails: the corrections are applied one after the other in the order of
  the table, so the output of a late entry can complete the key of an earlier one, which
  the next pass then replaces. \<open>WEHe\<close> is normalised to \<open>WENo\<close> (entry \<open>He\<close>), and
  \<open>WENo\<close> to \<open>Addresso\<close> (entry \<open>WEN\<close>).
\<close>

theorem normalisation_not_idempotent:
  "map frag_text (clean_ocr_text ucd_devanagari [frag (u ''WEHe'')]) = [u ''WENo'']
   \<and> map frag_text (clean_ocr_text ucd_devanagari (clean_ocr_text ucd_devanagari [frag (u ''WEHe'')]))
       = [u ''Addresso'']"
proof -
  have c1: "clean_text ucd_devanagari (u ''WEHe'') = Some (u ''WENo'')"
    using corrections_WEHe by (simp add: clean_defs u_def)
  have c2: "clean_text ucd_devanagari (u ''WENo'') = Some (u ''Addresso'')"
    using corrections_WENo by (simp add: clean_defs u_def)
  from c1 c2 show ?thesis
    by (simp add: clean_ocr_text_def List.map_filter_def frag_def)
qed

text \<open>
  C9, amended: a second pass over a normalised text of at least two characters in which
  no key of the correction table occurs gives the same text. (A normalised text of one
  character is dropped by the second pass, and one that contains a key is corrected again.)
\<close>

theorem clean_text_twice:
  assumes c: "clean_text U raw = Some t"
    and l: "2 \<le> length t"
    and k: "list_all (\<lambda>kv. \<not> py_in (fst kv) t) corrections"
  shows "clean_text U t = Some t"
proof -
  let ?n = "strip_noise U (py_strip raw)"
  let ?a = "apply_corrections corrections ?n"
  from c have t: "t = py_strip (collapse_ws ?a)" and ne: "t \<noteq> []"
    by (auto simp: clean_text_def Let_def split: if_splits)
  have s: "py_strip t = t" unfolding t by (rule py_strip_idem)
  have "list_all (noise_allowed U) ?n" by (simp add: strip_noise_def list_all_iff)
  moreover have "list_all (\<lambda>kv. list_all (noise_allowed U) (snd kv)) corrections"
    using display_values_allowed[of U] corrections_subset by (auto simp: list_all_iff)
  ultimately have "list_all (noise_allowed U) ?a" by (rule apply_corrections_all)
  have sp: "noise_allowed U 32" by (simp add: noise_allowed_def is_space_def)
  have cw: "list_all P x \<Longrightarrow> P 32 \<Longrightarrow> list_all P (collapse_ws x)" for P x
    by (induction x rule: collapse_ws.induct) (auto simp: list_all_iff dest: set_dropWhileD)
  have "list_all (noise_allowed U) t"
    unfolding t using \<open>list_all (noise_allowed U) ?a\<close> sp by (intro py_strip_all cw)
  then have n: "strip_noise U t = t" by (simp add: strip_noise_def list_all_iff)
  have "list_all (\<lambda>kv. fst kv \<noteq> [] \<and> \<not> py_in (fst kv) t) corrections"
    using k display_keys_nonempty corrections_subset by (auto simp: list_all_iff)
  then have a: "apply_corrections corrections t = t" by (rule apply_corrections_absent)
  have "ws_ok t" unfolding t by (intro py_strip_ws_ok collapse_ws_ok)
  then have w: "collapse_ws t = t" by (rule collapse_ws_fix)
  show ?thesis
    using l ne by (simp add: clean_text_def Let_def s n a w)
qed

theorem clean_text_twice_witness:
  "clean_text ucd_devanagari (u ''  Ramesh   Kumar@ '') = Some (u ''Ramesh Kumar'')
   \<and> 2 \<le> length (u ''Ramesh Kumar'')
   \<and> list_all (\<lambda>kv. \<not> py_in (fst kv) (u ''Ramesh Kumar'')) corrections
   \<and> clean_text ucd_devanagari (u ''Ramesh Kumar'') = Some (u ''Ramesh Kumar'')"
proof -
  have "apply_corrections corrections (u ''Ramesh   Kumar'') = u ''Ramesh   Kumar''"
    by (rule corrections_absent) (simp add: corrections_display_def u_def)
  then have c: "clean_text ucd_devanagari (u ''  Ramesh   Kumar@ '') = Some (u ''Ramesh Kumar'')"
    by (simp add: clean_defs u_def)
  have l: "2 \<le> length (u ''Ramesh Kumar'')" by (simp add: u_def)
  have "list_all (\<lambda>kv. \<not> py_in (fst kv) (u ''Ramesh Kumar'')) corrections_display"
    by (simp add: corrections_display_def u_def)
  then have k: "list_all (\<lambda>kv. \<not> py_in (fst kv) (u ''Ramesh Kumar'')) corrections"
    by (rule list_all_corrections [where P = "\<lambda>x. \<not> py_in x (u ''Ramesh Kumar'')"])
  from clean_text_twice[OF c l k] c l k show ?thesis by blast
qed

section \<open>Properties of the pattern refinement\<close>

lemma py_get_lookup: "py_get x k d = Inr v \<Longrightarrow> v = lookup_or x k d"
  by (cases x) (auto simp: lookup_or_def)

lemma ground_truth_field_lookup:
  "ground_truth_field sample grp fld = Inr v \<Longrightarrow> v = gt_lookup sample grp fld"
  unfolding ground_truth_field_def gt_lookup_def
  by (auto split: sum.splits dest!: py_get_lookup)

lemma collect_escaped_values:
  "collect_escaped grp fld samples = Inr vs \<Longrightarrow> vs = map re_escape (string_values grp fld samples)"
proof (induction samples arbitrary: vs)
  case Nil
  then show ?case by (simp add: string_values_def)
next
  case (Cons sample rest)
  then show ?case
    by (auto simp: string_values_def split: sum.splits if_splits pyval.splits
             dest!: ground_truth_field_lookup)
qed

lemma collect_fir_numbers_nonempty:
  "collect_fir_numbers samples = Inr vs \<Longrightarrow> (vs \<noteq> []) = has_fir_no samples"
proof (induction samples arbitrary: vs)
  case Nil
  then show ?case by (simp add: has_fir_no_def)
next
  case (Cons sample rest)
  then show ?case
    by (auto simp: has_fir_no_def split: sum.splits if_splits dest!: ground_truth_field_lookup)
qed

lemma analyze_unfold:
  assumes "analyze_training_samples samples = Inr patterns"
  obtains fs ds ps ns where
    "collect_fir_numbers samples = Inr fs"
    "collect_escaped ''FIR'' ''District'' samples = Inr ds"
    "collect_escaped ''FIR'' ''PoliceStation'' samples = Inr ps"
    "collect_escaped ''ComplainantInformant'' ''Name'' samples = Inr ns"
    "patterns =
     (let p1 = (if fs \<noteq> [] then AList.update ''fir_no'' improved_fir_no [] else []);
          p2 = (if ds \<noteq> [] then AList.update ''district'' (district_label @ py_join (u ''|'') (take 5 ds) @ u '')'') p1 else p1);
          p3 = (if ps \<noteq> [] then AList.update ''police_station'' (police_station_label @ py_join (u ''|'') (take 5 ps) @ u '')'') p2 else p2)
      in (if ns \<noteq> [] then AList.update ''complainant_name'' (name_label @ py_join (u ''|'') (take 3 ns) @ name_fallback) p3 else p3))"
  using assms unfolding analyze_training_samples_def
  by (auto simp: Let_def split: sum.splits)

lemma analyze_rules:
  assumes "analyze_training_samples samples = Inr patterns"
  shows "map_of patterns ''fir_no'' = (if has_fir_no samples then Some improved_fir_no else None)"
    and "map_of patterns ''district'' =
           (if string_values ''FIR'' ''District'' samples = [] then None
            else Some (alternation district_label 5 (string_values ''FIR'' ''District'' samples) (u '')'')))"
    and "map_of patterns ''police_station'' =
           (if string_values ''FIR'' ''PoliceStation'' samples = [] then None
            else Some (alternation police_station_label 5 (string_values ''FIR'' ''PoliceStation'' samples) (u '')'')))"
    and "map_of patterns ''complainant_name'' =
           (if string_values ''ComplainantInformant'' ''Name'' samples = [] then None
            else Some (alternation name_label 3 (string_values ''ComplainantInformant'' ''Name'' samples) name_fallback))"
    and "distinct (map fst patterns)"
proof -
  from assms obtain fs ds ps ns where
    fs: "collect_fir_numbers samples = Inr fs" and
    ds: "collect_escaped ''FIR'' ''District'' samples = Inr ds" and
    ps: "collect_escaped ''FIR'' ''PoliceStation'' samples = Inr ps" and
    ns: "collect_escaped ''ComplainantInformant'' ''Name'' samples = Inr ns" and
    p: "patterns =
     (let p1 = (if fs \<noteq> [] then AList.update ''fir_no'' improved_fir_no [] else []);
          p2 = (if ds \<noteq> [] then AList.update ''district'' (district_label @ py_join (u ''|'') (take 5 ds) @ u '')'') p1 else p1);
          p3 = (if ps \<noteq> [] then AList.update ''police_station'' (police_station_label @ py_join (u ''|'') (take 5 ps) @ u '')'') p2 else p2)
      in (if ns \<noteq> [] then AList.update ''complainant_name'' (name_label @ py_join (u ''|'') (take 3 ns) @ name_fallback) p3 else p3))"
    by (rule analyze_unfold)
  note e = collect_fir_numbers_nonempty[OF fs] collect_escaped_values[OF ds]
     collect_escaped_values[OF ps] collect_escaped_values[OF ns]
  show "map_of patterns ''fir_no'' = (if has_fir_no samples then Some improved_fir_no else None)"
    unfolding p using e by (simp add: Let_def update_conv)
  show "map_of patterns ''district'' =
           (if string_values ''FIR'' ''District'' samples = [] then None
            else Some (alternation district_label 5 (string_values ''FIR'' ''District'' samples) (u '')'')))"
    unfolding p using e by (simp add: Let_def alternation_def take_map update_conv)
  show "map_of patterns ''police_station'' =
           (if string_values ''FIR'' ''PoliceStation'' samples = [] then None
            else Some (alternation police_station_label 5 (string_values ''FIR'' ''PoliceStation'' samples) (u '')'')))"
    unfolding p using e by (simp add: Let_def alternation_def take_map update_conv)
  show "map_of patterns ''complainant_name'' =
           (if string_values ''ComplainantInformant'' ''Name'' samples = [] then None
            else Some (alternation name_label 3 (string_values ''ComplainantInformant'' ''Name'' samples) name_fallback))"
    unfolding p using e by (simp add: Let_def alternation_def take_map update_conv)
  show "distinct (map fst patterns)"
    unfolding p by (simp add: Let_def distinct_update)
qed

lemma map_of_py_update: "map_of (py_update d e) = map_of d ++ map_of (rev e)"
  unfolding py_update_def
  by (induction e arbitrary: d) (simp_all add: update_conv' map_add_upd_left fun_eq_iff map_add_def split: option.splits)

lemma map_of_rev_distinct: "distinct (map fst e) \<Longrightarrow> map_of (rev e) = map_of e"
  by (subst map_of_inject_set) (simp_all add: rev_map [symmetric])

lemma py_get_is_dict: "is_dict x \<Longrightarrow> py_get x k d = Inr (lookup_or x k d)"
  by (cases x) (auto simp: lookup_or_def)

lemma py_get_not_dict: "\<not> is_dict x \<Longrightarrow> py_get x k d = Inl AttributeError"
  by (cases x) auto

lemma ground_truth_field_ok:
  "chain_ok sample grp \<Longrightarrow> ground_truth_field sample grp fld = Inr (gt_lookup sample grp fld)"
  unfolding chain_ok_def ground_truth_field_def gt_lookup_def
  by (simp add: py_get_is_dict)

lemma ground_truth_field_bad:
  assumes "\<not> chain_ok sample grp"
  shows "ground_truth_field sample grp fld = Inl AttributeError"
proof (cases "is_dict sample")
  case False
  then show ?thesis by (simp add: ground_truth_field_def py_get_not_dict)
next
  case s: True
  show ?thesis
  proof (cases "is_dict (lookup_or sample ''ground_truth'' (PDict []))")
    case False
    with s show ?thesis by (simp add: ground_truth_field_def py_get_not_dict py_get_is_dict)
  next
    case True
    with s assms have "\<not> is_dict (lookup_or (lookup_or sample ''ground_truth'' (PDict [])) grp (PDict []))"
      by (simp add: chain_ok_def)
    with s True show ?thesis by (simp add: ground_truth_field_def py_get_not_dict py_get_is_dict)
  qed
qed

lemma collect_fir_numbers_ok:
  "list_all (\<lambda>s. chain_ok s ''FIR'') samples \<Longrightarrow> \<exists>vs. collect_fir_numbers samples = Inr vs"
  by (induction samples) (auto simp: ground_truth_field_ok)

lemma collect_fir_numbers_bad:
  "\<not> list_all (\<lambda>s. chain_ok s ''FIR'') samples \<Longrightarrow> \<exists>e. collect_fir_numbers samples = Inl e"
proof (induction samples)
  case Nil
  then show ?case by simp
next
  case (Cons sample rest)
  show ?case
  proof (cases "chain_ok sample ''FIR''")
    case False
    then show ?thesis by (simp add: ground_truth_field_bad)
  next
    case True
    with Cons obtain e where "collect_fir_numbers rest = Inl e" by auto
    with True show ?thesis by (simp add: ground_truth_field_ok)
  qed
qed

lemma collect_escaped_ok:
  "list_all (\<lambda>s. chain_ok s grp \<and> escapable (gt_lookup s grp fld)) samples \<Longrightarrow>
     \<exists>vs. collect_escaped grp fld samples = Inr vs"
proof (induction samples)
  case Nil
  then show ?case by simp
next
  case (Cons sample rest)
  then obtain vs where vs: "collect_escaped grp fld rest = Inr vs" by auto
  from Cons.prems have c: "chain_ok sample grp" and e: "escapable (gt_lookup sample grp fld)" by simp_all
  show ?case
  proof (cases "gt_lookup sample grp fld")
    case (PStr s)
    with c vs show ?thesis by (simp add: ground_truth_field_ok)
  qed (use c e vs in \<open>simp_all add: ground_truth_field_ok escapable_def\<close>)
qed

lemma collect_escaped_bad:
  "\<not> list_all (\<lambda>s. chain_ok s grp \<and> escapable (gt_lookup s grp fld)) samples \<Longrightarrow>
     \<exists>e. collect_escaped grp fld samples = Inl e"
proof (induction samples)
  case Nil
  then show ?case by simp
next
  case (Cons sample rest)
  show ?case
  proof (cases "chain_ok sample grp")
    case False
    then show ?thesis by (simp add: ground_truth_field_bad)
  next
    case c: True
    show ?thesis
    proof (cases "escapable (gt_lookup sample grp fld)")
      case False
      then have "truthy (gt_lookup sample grp fld)" "\<not> is_str (gt_lookup sample grp fld)"
        by (simp_all add: escapable_def)
      with c show ?thesis
        by (cases "gt_lookup sample grp fld") (simp_all add: ground_truth_field_ok)
    next
      case True
      with c Cons obtain e where "collect_escaped grp fld rest = Inl e" by auto
      with c show ?thesis
        by (cases "gt_lookup sample grp fld") (simp_all add: ground_truth_field_ok)
    qed
  qed
qed

lemma analysable_split:
  "analysable samples \<longleftrightarrow>
     list_all (\<lambda>s. chain_ok s ''FIR'') samples
   \<and> list_all (\<lambda>s. chain_ok s ''FIR'' \<and> escapable (gt_lookup s ''FIR'' ''District'')) samples
   \<and> list_all (\<lambda>s. chain_ok s ''FIR'' \<and> escapable (gt_lookup s ''FIR'' ''PoliceStation'')) samples
   \<and> list_all (\<lambda>s. chain_ok s ''ComplainantInformant''
                    \<and> escapable (gt_lookup s ''ComplainantInformant'' ''Name'')) samples"
  unfolding analysable_def list_all_iff by blast

lemma analysable_returns:
  assumes "analysable samples"
  shows "\<exists>patterns. analyze_training_samples samples = Inr patterns"
proof -
  from assms obtain fs ds ps ns where
    "collect_fir_numbers samples = Inr fs"
    "collect_escaped ''FIR'' ''District'' samples = Inr ds"
    "collect_escaped ''FIR'' ''PoliceStation'' samples = Inr ps"
    "collect_escaped ''ComplainantInformant'' ''Name'' samples = Inr ns"
    unfolding analysable_split
    using collect_fir_numbers_ok[of samples] collect_escaped_ok[of "''FIR''" "''District''" samples]
      collect_escaped_ok[of "''FIR''" "''PoliceStation''" samples]
      collect_escaped_ok[of "''ComplainantInformant''" "''Name''" samples]
    by blast
  then show ?thesis by (simp add: analyze_training_samples_def Let_def)
qed

lemma not_analysable_raises:
  assumes "\<not> analysable samples"
  shows "\<exists>e. analyze_training_samples samples = Inl e"
proof (cases "analyze_training_samples samples")
  case (Inl e)
  then show ?thesis by blast
next
  case (Inr patterns)
  then obtain fs ds ps ns where
    "collect_fir_numbers samples = Inr fs"
    "collect_escaped ''FIR'' ''District'' samples = Inr ds"
    "collect_escaped ''FIR'' ''PoliceStation'' samples = Inr ps"
    "collect_escaped ''ComplainantInformant'' ''Name'' samples = Inr ns"
    by (rule analyze_unfold)
  then have "analysable samples"
    unfolding analysable_split
    using collect_fir_numbers_bad[of samples] collect_escaped_bad[of "''FIR''" "''District''" samples]
      collect_escaped_bad[of "''FIR''" "''PoliceStation''" samples]
      collect_escaped_bad[of "''ComplainantInformant''" "''Name''" samples]
    by auto
  with assms show ?thesis by simp
qed

lemmas sample_defs = district_sample_def fir_no_sample_def full_sample_def number_district_sample_def

lemmas lookup_defs = gt_lookup_def lookup_or_def chain_ok_def escapable_def analysable_def
  string_values_def has_fir_no_def

text \<open>
  C7 as stated fails in three ways. The values are not made distinct: two samples with the
  same district give an alternation that repeats it, where the alternation over the
  distinct values has it once. The rule of the FIR number is a fixed pattern in which
  the value of the sample does not occur. And a value that is not a string makes the
  analysis raise, so that no rule is made at all.
\<close>

theorem analyze_keeps_duplicates:
  "rule_of (analyze_training_samples [district_sample (u ''Pune''), district_sample (u ''Pune'')]) ''district''
     = Some (district_label @ u ''Pune|Pune)'')
   \<and> distinct_alternation district_label 5 [u ''Pune'', u ''Pune''] (u '')'') = district_label @ u ''Pune)''
   \<and> rule_of (analyze_training_samples [fir_no_sample (u ''2021'')]) ''fir_no'' = Some improved_fir_no
   \<and> \<not> py_in (u ''2021'') improved_fir_no
   \<and> analyze_training_samples [number_district_sample] = Inl TypeError"
  by (simp add: rule_of_def analyze_training_samples_def sample_defs ground_truth_field_def
        distinct_alternation_def alternation_def re_escape_def escape_special_def
        improved_fir_no_def u_def)

text \<open>
  C7, amended. When the ground truth of every sample can be read (the sample, its
  \<open>ground_truth\<close> and the \<open>FIR\<close> and \<open>ComplainantInformant\<close> entries are dicts where
  present) and the non-empty district, police station and complainant name values are
  strings, the analysis returns, and the rule of district, police station and complainant
  name is the label followed by the alternation of the non-empty ground-truth strings in
  sample order, repeated values kept, each escaped, cut to the first 5, 5 and 3, and
  closed (for the complainant name by the generic word-sequence alternative); a field
  without such a value gets no rule; the rule of the FIR number is a fixed pattern,
  present when some sample has a FIR number. Otherwise the analysis raises and makes no
  rule.
\<close>

theorem analyze_training_samples_rules:
  "(analysable samples \<longrightarrow>
      (\<exists>patterns. analyze_training_samples samples = Inr patterns
         \<and> map_of patterns ''fir_no'' = (if has_fir_no samples then Some improved_fir_no else None)
         \<and> map_of patterns ''district'' =
             (if string_values ''FIR'' ''District'' samples = [] then None
              else Some (alternation district_label 5 (string_values ''FIR'' ''District'' samples) (u '')'')))
         \<and> map_of patterns ''police_station'' =
             (if string_values ''FIR'' ''PoliceStation'' samples = [] then None
              else Some (alternation police_station_label 5
                           (string_values ''FIR'' ''PoliceStation'' samples) (u '')'')))
         \<and> map_of patterns ''complainant_name'' =
             (if string_values ''ComplainantInformant'' ''Name'' samples = [] then None
              else Some (alternation name_label 3
                           (string_values ''ComplainantInformant'' ''Name'' samples) name_fallback))))
   \<and> (\<not> analysable samples \<longrightarrow> (\<exists>e. analyze_training_samples samples = Inl e))"
proof (intro conjI impI)
  assume "analysable samples"
  then obtain patterns where p: "analyze_training_samples samples = Inr patterns"
    using analysable_returns by blast
  from analyze_rules(1-4)[OF p] p
  show "\<exists>patterns. analyze_training_samples samples = Inr patterns
         \<and> map_of patterns ''fir_no'' = (if has_fir_no samples then Some improved_fir_no else None)
         \<and> map_of patterns ''district'' =
             (if string_values ''FIR'' ''District'' samples = [] then None
              else Some (alternation district_label 5 (string_values ''FIR'' ''District'' samples) (u '')'')))
         \<and> map_of patterns ''police_station'' =
             (if string_values ''FIR'' ''PoliceStation'' samples = [] then None
              else Some (alternation police_station_label 5
                           (string_values ''FIR'' ''PoliceStation'' samples) (u '')'')))
         \<and> map_of patterns ''complainant_name'' =
             (if string_values ''ComplainantInformant'' ''Name'' samples = [] then None
              else Some (alternation name_label 3
                           (string_values ''ComplainantInformant'' ''Name'' samples) name_fallback))"
    by blast
next
  assume "\<not> analysable samples"
  then show "\<exists>e. analyze_training_samples samples = Inl e" by (rule not_analysable_raises)
qed

text \<open>
  Six samples: the district \<open>Pune\<close> three times among six values, so that the cut to five
  keeps a repeated value and drops the sixth; four names, of which three are kept; and one
  sample whose district is a number.
\<close>

theorem analyze_training_samples_rules_witness:
  "analysable
     [full_sample (u ''2021'') (u ''Pune'') (u ''Kothrud'') (u ''Asha Rao''),
      full_sample [] (u ''Pune'') [] (u ''Ravi''),
      full_sample [] (u ''Nashik'') [] (u ''Asha Rao''),
      full_sample [] (u ''Thane'') [] (u ''Meena''),
      full_sample [] (u ''Pune'') [] [],
      full_sample [] (u ''Satara'') [] []]
   \<and> rule_of (analyze_training_samples
       [full_sample (u ''2021'') (u ''Pune'') (u ''Kothrud'') (u ''Asha Rao''),
        full_sample [] (u ''Pune'') [] (u ''Ravi''),
        full_sample [] (u ''Nashik'') [] (u ''Asha Rao''),
        full_sample [] (u ''Thane'') [] (u ''Meena''),
        full_sample [] (u ''Pune'') [] [],
        full_sample [] (u ''Satara'') [] []]) ''district''
     = Some (district_label @ u ''Pune|Pune|Nashik|Thane|Pune)'')
   \<and> rule_of (analyze_training_samples
       [full_sample (u ''2021'') (u ''Pune'') (u ''Kothrud'') (u ''Asha Rao''),
        full_sample [] (u ''Pune'') [] (u ''Ravi''),
        full_sample [] (u ''Nashik'') [] (u ''Asha Rao''),
        full_sample [] (u ''Thane'') [] (u ''Meena''),
        full_sample [] (u ''Pune'') [] [],
        full_sample [] (u ''Satara'') [] []]) ''complainant_name''
     = Some (name_label @ u ''Asha'' @ [92] @ u '' Rao|Ravi|Asha'' @ [92] @ u '' Rao'' @ name_fallback)
   \<and> \<not> analysable [number_district_sample]
   \<and> (\<exists>e. analyze_training_samples [number_district_sample] = Inl e)"
proof -
  let ?ss = "[full_sample (u ''2021'') (u ''Pune'') (u ''Kothrud'') (u ''Asha Rao''),
      full_sample [] (u ''Pune'') [] (u ''Ravi''),
      full_sample [] (u ''Nashik'') [] (u ''Asha Rao''),
      full_sample [] (u ''Thane'') [] (u ''Meena''),
      full_sample [] (u ''Pune'') [] [],
      full_sample [] (u ''Satara'') [] []]"
  have a: "analysable ?ss" by (simp add: lookup_defs sample_defs)
  have d: "string_values ''FIR'' ''District'' ?ss
      = [u ''Pune'', u ''Pune'', u ''Nashik'', u ''Thane'', u ''Pune'', u ''Satara'']"
    by (simp add: lookup_defs sample_defs u_def)
  have n: "string_values ''ComplainantInformant'' ''Name'' ?ss
      = [u ''Asha Rao'', u ''Ravi'', u ''Asha Rao'', u ''Meena'']"
    by (simp add: lookup_defs sample_defs u_def)
  have b: "\<not> analysable [number_district_sample]" by (simp add: lookup_defs sample_defs)
  from analyze_training_samples_rules[of ?ss] a obtain patterns where
    p: "analyze_training_samples ?ss = Inr patterns"
    and pd: "map_of patterns ''district'' =
             (if string_values ''FIR'' ''District'' ?ss = [] then None
              else Some (alternation district_label 5 (string_values ''FIR'' ''District'' ?ss) (u '')'')))"
    and pn: "map_of patterns ''complainant_name'' =
             (if string_values ''ComplainantInformant'' ''Name'' ?ss = [] then None
              else Some (alternation name_label 3
                           (string_values ''ComplainantInformant'' ''Name'' ?ss) name_fallback))"
    by blast
  have rd: "rule_of (analyze_training_samples ?ss) ''district''
      = Some (district_label @ u ''Pune|Pune|Nashik|Thane|Pune)'')"
    unfolding p rule_of_def using pd unfolding d
    by (simp add: alternation_def re_escape_def escape_special_def u_def)
  have rn: "rule_of (analyze_training_samples ?ss) ''complainant_name''
      = Some (name_label @ u ''Asha'' @ [92] @ u '' Rao|Ravi|Asha'' @ [92] @ u '' Rao'' @ name_fallback)"
    unfolding p rule_of_def using pn unfolding n
    by (simp add: alternation_def re_escape_def escape_special_def u_def)
  from analyze_training_samples_rules[of "[number_district_sample]"] b
  have "\<exists>e. analyze_training_samples [number_district_sample] = Inl e" by blast
  with a rd rn b show ?thesis by blast
qed




section \<open>Properties of the matcher: the texts given to \<open>int\<close>\<close>

lemma rep_greedy_result:
  "rep_greedy U F c q r pre s caps = Some m \<Longrightarrow>
     \<exists>k\<le>length s. list_all (in_cls U F c) (take k s)
        \<and> mt U F r (rev (take k s) @ pre) (drop k s) caps = Some m"
proof (induction s arbitrary: q pre)
  case Nil
  then show ?case by simp
next
  case (Cons ch s')
  show ?case
  proof (cases "in_cls U F c ch \<and> q \<noteq> Some 0")
    case True
    show ?thesis
    proof (cases "rep_greedy U F c (dec_more q) r (ch # pre) s' caps")
      case None
      with Cons.prems True have "mt U F r pre (ch # s') caps = Some m" by simp
      then show ?thesis by (intro exI[of _ 0]) simp
    next
      case (Some m')
      with Cons.prems True have "m' = m" by simp
      with Some Cons.IH obtain k where "k \<le> length s'" "list_all (in_cls U F c) (take k s')"
        "mt U F r (rev (take k s') @ ch # pre) (drop k s') caps = Some m" by blast
      with True show ?thesis by (intro exI[of _ "Suc k"]) simp
    qed
  next
    case False
    with Cons.prems have "mt U F r pre (ch # s') caps = Some m" by (simp split: if_splits)
    then show ?thesis by (intro exI[of _ 0]) simp
  qed
qed

lemma rep_lazy_result:
  "rep_lazy U F c q r pre s caps = Some m \<Longrightarrow>
     \<exists>k\<le>length s. list_all (in_cls U F c) (take k s)
        \<and> mt U F r (rev (take k s) @ pre) (drop k s) caps = Some m"
proof (induction s arbitrary: q pre)
  case Nil
  then show ?case by simp
next
  case (Cons ch s')
  show ?case
  proof (cases "mt U F r pre (ch # s') caps")
    case (Some m')
    with Cons.prems have "m' = m" by simp
    with Some show ?thesis by (intro exI[of _ 0]) simp
  next
    case None
    with Cons.prems have t: "in_cls U F c ch" and
      "rep_lazy U F c (dec_more q) r (ch # pre) s' caps = Some m"
      by (auto split: if_splits)
    with Cons.IH obtain k where "k \<le> length s'" "list_all (in_cls U F c) (take k s')"
        "mt U F r (rev (take k s') @ ch # pre) (drop k s') caps = Some m" by blast
    with t show ?thesis by (intro exI[of _ "Suc k"]) simp
  qed
qed

lemma rep_greedy_zero: "rep_greedy U F c (Some 0) r pre s caps = mt U F r pre s caps"
  by (cases s) simp_all

lemma digit_rule_Lit: "digit_rule U F r \<Longrightarrow> digit_rule U F (Lit l # r)"
  unfolding digit_rule_def by (auto split: if_splits)

lemma digit_rule_Wb: "digit_rule U F r \<Longrightarrow> digit_rule U F (Wb # r)"
  unfolding digit_rule_def by (auto split: if_splits)

lemma digit_rule_Rep: "digit_rule U F r \<Longrightarrow> digit_rule U F (Rep c lo hi g # r)"
  unfolding digit_rule_def
  by (auto split: if_splits dest!: rep_greedy_result rep_lazy_result)

lemma mt_alt_result:
  "mt_alt U F ps r pre s caps = Some m \<Longrightarrow> \<exists>p\<in>set ps. mt U F (p @ r) pre s caps = Some m"
  by (induction ps) (auto split: option.splits)

lemma digit_rule_Alt: "(\<And>p. p \<in> set ps \<Longrightarrow> digit_rule U F (p @ r)) \<Longrightarrow> digit_rule U F (Alt ps # r)"
  unfolding digit_rule_def by (auto dest!: mt_alt_result)

lemma in_cls_CDigit: "in_cls U F CDigit = is_decimal U"
  by (rule ext) simp

lemma digit_rule_Grp:
  assumes lo: "0 < lo"
    and r: "\<And>pre s caps m. mt U F r pre s caps = Some m \<Longrightarrow> snd (snd m) 1 = caps 1"
  shows "digit_rule U F (Grp 1 [Rep CDigit lo hi True] # r)"
  unfolding digit_rule_def
proof (intro allI impI)
  fix pre s caps m
  assume "mt U F (Grp 1 [Rep CDigit lo hi True] # r) pre s caps = Some m"
  then have c: "lo \<le> length s" "list_all (is_decimal U) (take lo s)"
    and g: "rep_greedy U F CDigit (map_option (\<lambda>h. h - lo) hi) (GEnd 1 (length pre) # r)
              (rev (take lo s) @ pre) (drop lo s) caps = Some m"
    by (auto simp: in_cls_CDigit split: if_splits)
  from rep_greedy_result[OF g] obtain k where k: "k \<le> length (drop lo s)"
    "list_all (in_cls U F CDigit) (take k (drop lo s))"
    "mt U F (GEnd 1 (length pre) # r) (rev (take k (drop lo s)) @ rev (take lo s) @ pre)
        (drop k (drop lo s)) caps = Some m" by blast
  let ?g = "take lo s @ take k (drop lo s)"
  have "rev (take (length (rev (take k (drop lo s)) @ rev (take lo s) @ pre) - length pre)
            (rev (take k (drop lo s)) @ rev (take lo s) @ pre)) = ?g"
    by simp
  with k(3) have "mt U F r (rev (take k (drop lo s)) @ rev (take lo s) @ pre) (drop k (drop lo s))
       (caps(1 \<mapsto> ?g)) = Some m" by (simp del: rev_append)
  from r[OF this] have "snd (snd m) 1 = Some ?g" by simp
  moreover have "?g \<noteq> []" using lo c(1) by auto
  moreover have "list_all (is_decimal U) ?g" using c(2) k(2) by (simp add: in_cls_CDigit)
  ultimately show "digit_group U m" by (simp add: digit_group_def)
qed

lemma digit_rule_year: "digit_rule U F year_rx"
  unfolding year_rx_def by (rule digit_rule_Grp) simp_all

lemma digit_rule_dob: "digit_rule U F dob_rx"
  unfolding dob_rx_def
proof (rule digit_rule_Alt)
  fix p :: "rx list"
  have g: "digit_rule U F [Grp 1 [digits 4]]" by (rule digit_rule_Grp) simp_all
  assume "p \<in> set [[Lit (u ''DOB'')], [Lit (u ''Birth'')]]"
  then have "p = [Lit (u ''DOB'')] \<or> p = [Lit (u ''Birth'')]" by simp
  then show "digit_rule U F (p @ [any_lazy, Grp 1 [digits 4]])"
    using digit_rule_Lit[OF digit_rule_Rep[OF g]] by auto
qed

lemma digit_rule_number: "digit_rule U F number_rx"
  unfolding number_rx_def
  by (rule digit_rule_Wb, rule digit_rule_Grp) (auto split: if_splits)

lemma search_from_result:
  "search_from U F p pre s = Some m \<Longrightarrow> \<exists>pre' s'. mt U F p pre' s' Map.empty = Some m"
  by (induction s arbitrary: pre) (auto split: option.splits)

lemma digit_rule_search:
  assumes "digit_rule U F p" "re_search U F p s = Some caps"
  shows "\<exists>i. py_int U (match_group caps 1) = Inr i"
proof -
  from assms(2) obtain m where m: "search_from U F p [] s = Some m" "caps = snd (snd m)"
    by (auto simp: re_search_def)
  from search_from_result[OF m(1)] assms(1) have "digit_group U m"
    unfolding digit_rule_def by blast
  then show ?thesis
    unfolding m(2) by (auto simp: digit_group_def match_group_def py_int_def split: option.splits)
qed

lemma findall_from_result:
  "x \<in> set (findall_from U F p pre s) \<Longrightarrow>
     \<exists>m pre' s'. mt U F p pre' s' Map.empty = Some m \<and> x = match_group (snd (snd m)) 1"
proof (induction "length s" arbitrary: s pre rule: less_induct)
  case less
  from less.prems have x: "x \<in> set (case mt U F p pre s Map.empty of
        Some m \<Rightarrow>
          match_group (snd (snd m)) 1 #
            (if length (fst (snd m)) < length s then findall_from U F p (fst m) (fst (snd m))
             else (case s of [] \<Rightarrow> [] | c # cs \<Rightarrow> findall_from U F p (c # pre) cs))
      | None \<Rightarrow> (case s of [] \<Rightarrow> [] | c # cs \<Rightarrow> findall_from U F p (c # pre) cs))"
    by (subst (asm) findall_from.simps)
  have step: "\<exists>m pre' s'. mt U F p pre' s' Map.empty = Some m \<and> x = match_group (snd (snd m)) 1"
    if "x \<in> set (case s of [] \<Rightarrow> [] | c # cs \<Rightarrow> findall_from U F p (c # pre) cs)"
  proof -
    from that obtain c cs where s: "s = c # cs" and "x \<in> set (findall_from U F p (c # pre) cs)"
      by (cases s) auto
    then show ?thesis using less.hyps[of cs "c # pre"] by simp
  qed
  show ?case
  proof (cases "mt U F p pre s Map.empty")
    case None
    with x step show ?thesis by simp
  next
    case (Some m)
    show ?thesis
    proof (cases "x = match_group (snd (snd m)) 1")
      case True
      with Some show ?thesis by blast
    next
      case False
      show ?thesis
      proof (cases "length (fst (snd m)) < length s")
        case True
        with x Some False have "x \<in> set (findall_from U F p (fst m) (fst (snd m)))" by simp
        then show ?thesis using less.hyps[OF True] by blast
      next
        case f: False
        with x Some False show ?thesis by (intro step) simp
      qed
    qed
  qed
qed

lemma first_plausible_section_ok:
  "(\<And>x. x \<in> set xs \<Longrightarrow> \<exists>i. py_int U x = Inr i) \<Longrightarrow> \<exists>r. first_plausible_section U xs = Inr r"
proof (induction xs)
  case Nil
  then show ?case by simp
next
  case (Cons a xs)
  from Cons.prems[of a] obtain i where i: "py_int U a = Inr i" by auto
  from Cons.IH Cons.prems obtain r where "first_plausible_section U xs = Inr r" by auto
  with i show ?case by simp
qed

lemma year_block_ok: "\<exists>r. year_block U ft info = Inr r"
  unfolding year_block_def
  using digit_rule_search[OF digit_rule_year]
  by (fastforce split: option.splits sum.splits)

lemma dob_value_ok: "\<exists>r. dob_value U ft = Inr r"
  unfolding dob_value_def
  using digit_rule_search[OF digit_rule_dob]
  by (fastforce split: option.splits sum.splits)

lemma extract_acts_sections_ok: "\<exists>r. extract_acts_sections U ocr ft = Inr r"
proof -
  have "\<exists>i. py_int U x = Inr i" if "x \<in> set (re_findall U no_flags number_rx ft)" for x
  proof -
    from that findall_from_result obtain m pre' s' where
      "mt U no_flags number_rx pre' s' Map.empty = Some m" "x = match_group (snd (snd m)) 1"
      unfolding re_findall_def by blast
    with digit_rule_number[of U no_flags] have "digit_group U m" "x = match_group (snd (snd m)) 1"
      unfolding digit_rule_def by blast+
    then show ?thesis
      by (auto simp: digit_group_def match_group_def py_int_def split: option.splits)
  qed
  then have "\<exists>r. first_plausible_section U (re_findall U no_flags number_rx ft) = Inr r"
    by (rule first_plausible_section_ok)
  then show ?thesis unfolding extract_acts_sections_def by (auto simp: Let_def)
qed

section \<open>Properties of the extraction\<close>

lemma update_keys_subset: "fst ` set (AList.update k v d) \<subseteq> insert k (fst ` set d)"
  by (simp add: dom_update)

lemma block_cases:
  "fir_no_block U ft d = d \<or> (\<exists>v. fir_no_block U ft d = AList.update ''FIRNo'' v d)"
  "date_time_block U ft d = d \<or> (\<exists>v. date_time_block U ft d = AList.update ''DateTimeOfFIR'' v d)"
  "district_block U ft d = d \<or> (\<exists>v. district_block U ft d = AList.update ''District'' v d)"
  "police_station_block U ft d = d \<or> (\<exists>v. police_station_block U ft d = AList.update ''PoliceStation'' v d)"
  "type_of_information_block ft d = d \<or> (\<exists>v. type_of_information_block ft d = AList.update ''TypeOfInformation'' v d)"
  unfolding fir_no_block_def date_time_block_def district_block_def police_station_block_def
    type_of_information_block_def
  by (auto simp: Let_def split: option.splits)

lemma keys_within_update:
  "keys_within ks d \<Longrightarrow> k \<in> set ks \<Longrightarrow> keys_within ks (AList.update k v d)"
  unfolding keys_within_def using update_keys_subset[of k v d] by (auto simp: distinct_update)

lemma keys_within_blocks:
  assumes "keys_within fir_info_keys d"
  shows "keys_within fir_info_keys (fir_no_block U ft d)"
    "keys_within fir_info_keys (date_time_block U ft d)"
    "keys_within fir_info_keys (district_block U ft d)"
    "keys_within fir_info_keys (police_station_block U ft d)"
    "keys_within fir_info_keys (type_of_information_block ft d)"
  using block_cases(1)[of U ft d] block_cases(2)[of U ft d] block_cases(3)[of U ft d]
    block_cases(4)[of U ft d] block_cases(5)[of ft d] assms
  by (auto intro!: keys_within_update simp: fir_info_keys_def)

lemma year_block_cases:
  "year_block U ft d = Inr d' \<Longrightarrow> d' = d \<or> (\<exists>v. d' = AList.update ''Year'' v d)"
  unfolding year_block_def by (auto split: option.splits sum.splits if_splits)

lemma keys_within_year:
  "year_block U ft d = Inr d' \<Longrightarrow> keys_within fir_info_keys d \<Longrightarrow> keys_within fir_info_keys d'"
  using year_block_cases[of U ft d d']
  by (auto intro!: keys_within_update simp: fir_info_keys_def)

lemma extract_fir_info_unfold:
  "extract_fir_info U ocr ft =
     (case year_block U ft (before_year U ft) of Inl e \<Rightarrow> Inl e
      | Inr d \<Rightarrow> Inr (type_of_information_block ft d))"
  by (simp add: extract_fir_info_def before_year_def Let_def)

lemma before_year_keys: "keys_within fir_info_keys (before_year U ft)"
  unfolding before_year_def
  by (intro keys_within_blocks) (simp add: keys_within_def)

lemma extract_fir_info_ok: "\<exists>fi. extract_fir_info U ocr ft = Inr fi"
proof -
  obtain d where "year_block U ft (before_year U ft) = Inr d" using year_block_ok by blast
  then show ?thesis by (simp add: extract_fir_info_unfold)
qed

lemma extract_fir_info_keys:
  assumes "extract_fir_info U ocr ft = Inr fi"
  shows "keys_within fir_info_keys fi"
proof -
  from assms obtain d where d: "year_block U ft (before_year U ft) = Inr d"
    and fi: "fi = type_of_information_block ft d"
    by (auto simp: extract_fir_info_unfold split: sum.splits)
  from keys_within_year[OF d before_year_keys] show ?thesis
    unfolding fi by (rule keys_within_blocks)
qed

lemma extract_complainant_ok: "\<exists>c. extract_complainant U ocr ft = Inr c"
proof -
  obtain dob where "dob_value U ft = Inr dob" using dob_value_ok by blast
  then show ?thesis by (simp add: extract_complainant_def Let_def)
qed

lemma run_try_statements:
  "run_steps (try_statements (Inr fi) (Inr c) (Inr acc) (Inr occ) (Inr acts) (Inr place) (Inr action) (Inr contents)) skeleton
     = (None, filled_record (filled_fir fi occ acts place) (py_update skeleton_complainant c) acc contents action)"
  by (simp add: try_statements_def skeleton_def update_at_def set_at_def filled_record_def filled_fir_def)

lemma try_block_filled:
  obtains fi c acts where
    "extract_fir_info U (cleaned_fragments U ocr) (full_text_of U ocr) = Inr fi"
    "extract_complainant U (cleaned_fragments U ocr) (full_text_of U ocr) = Inr c"
    "extract_acts_sections U (cleaned_fragments U ocr) (full_text_of U ocr) = Inr acts"
    "try_block U ocr = (None, filled_record
          (filled_fir fi (extract_occurrence U (cleaned_fragments U ocr) (full_text_of U ocr)) acts
             (extract_place U (cleaned_fragments U ocr) (full_text_of U ocr)))
          (py_update skeleton_complainant c)
          (extract_accused U (cleaned_fragments U ocr))
          (extract_first_information U (cleaned_fragments U ocr) (full_text_of U ocr))
          (extract_action_taken U (cleaned_fragments U ocr) (full_text_of U ocr)))"
proof -
  let ?cl = "cleaned_fragments U ocr" and ?ft = "full_text_of U ocr"
  obtain fi where fi: "extract_fir_info U ?cl ?ft = Inr fi" using extract_fir_info_ok by blast
  obtain c where c: "extract_complainant U ?cl ?ft = Inr c" using extract_complainant_ok by blast
  obtain a where a: "extract_acts_sections U ?cl ?ft = Inr a" using extract_acts_sections_ok by blast
  have "try_block U ocr = (None, filled_record
          (filled_fir fi (extract_occurrence U ?cl ?ft) a (extract_place U ?cl ?ft))
          (py_update skeleton_complainant c) (extract_accused U ?cl)
          (extract_first_information U ?cl ?ft) (extract_action_taken U ?cl ?ft))"
    unfolding try_block_def field_steps_def fi c a by (rule run_try_statements)
  with fi c a show ?thesis by (rule that)
qed

text \<open>
  C8: no statement of the \<open>try\<close> block raises, for any list of fragments, so the
  handler is never entered, and \<open>extract_fields\<close> returns the record the eight
  statements have filled. The fragments are the typed records of the model (text,
  confidence, bounding box); the only calls that can raise, \<open>int()\<close> and the lookups in
  the record, are given digit runs and keys of the skeleton.
\<close>

theorem extract_fields_never_raises:
  "fst (try_block U ocr_data) = None
   \<and> extract_fields U self ocr_data = PDict (snd (try_block U ocr_data))"
proof -
  obtain fi c acts where "try_block U ocr_data = (None, filled_record
          (filled_fir fi (extract_occurrence U (cleaned_fragments U ocr_data) (full_text_of U ocr_data)) acts
             (extract_place U (cleaned_fragments U ocr_data) (full_text_of U ocr_data)))
          (py_update skeleton_complainant c)
          (extract_accused U (cleaned_fragments U ocr_data))
          (extract_first_information U (cleaned_fragments U ocr_data) (full_text_of U ocr_data))
          (extract_action_taken U (cleaned_fragments U ocr_data) (full_text_of U ocr_data)))"
    by (rule try_block_filled)
  then show ?thesis by (simp add: extract_fields_def)
qed

lemma at_path_update:
  "at_path (PDict (AList.update k v d)) (k' # ks) =
     (if k' = k then at_path v ks else at_path (PDict d) (k' # ks))"
  by (simp add: update_conv')

lemma map_of_py_update_other:
  assumes "keys_within ks e" "k \<notin> set ks"
  shows "map_of (py_update d e) k = map_of d k"
proof -
  from assms have "k \<notin> fst ` set (rev e)" by (auto simp: keys_within_def)
  then have "map_of (rev e) k = None" by (simp add: map_of_eq_None_iff)
  then show ?thesis by (simp add: map_of_py_update map_add_def)
qed

lemma at_path_py_update_other:
  "keys_within ks e \<Longrightarrow> k \<notin> set ks \<Longrightarrow>
     at_path (PDict (py_update d e)) (k # rest) = at_path (PDict d) (k # rest)"
  by (simp add: map_of_py_update_other)

lemma at_path_py_update_top:
  "k \<in> fst ` set d \<Longrightarrow> (at_path (PDict (py_update d e)) [k] = None) = False"
proof -
  assume "k \<in> fst ` set d"
  then have "map_of d k \<noteq> None" by (simp add: map_of_eq_None_iff)
  then have "map_of (py_update d e) k \<noteq> None"
    by (auto simp: map_of_py_update map_add_def split: option.splits)
  then show ?thesis by (auto split: option.splits)
qed

lemma extract_fields_filled:
  obtains fi c acts where
    "extract_fir_info U (cleaned_fragments U ocr) (full_text_of U ocr) = Inr fi"
    "extract_fields U self ocr = PDict (filled_record
          (filled_fir fi (extract_occurrence U (cleaned_fragments U ocr) (full_text_of U ocr)) acts
             (extract_place U (cleaned_fragments U ocr) (full_text_of U ocr)))
          (py_update skeleton_complainant c)
          (extract_accused U (cleaned_fragments U ocr))
          (extract_first_information U (cleaned_fragments U ocr) (full_text_of U ocr))
          (extract_action_taken U (cleaned_fragments U ocr) (full_text_of U ocr)))"
proof -
  obtain fi c acts where
    "extract_fir_info U (cleaned_fragments U ocr) (full_text_of U ocr) = Inr fi"
    "try_block U ocr = (None, filled_record
          (filled_fir fi (extract_occurrence U (cleaned_fragments U ocr) (full_text_of U ocr)) acts
             (extract_place U (cleaned_fragments U ocr) (full_text_of U ocr)))
          (py_update skeleton_complainant c)
          (extract_accused U (cleaned_fragments U ocr))
          (extract_first_information U (cleaned_fragments U ocr) (full_text_of U ocr))
          (extract_action_taken U (cleaned_fragments U ocr) (full_text_of U ocr)))"
    by (rule try_block_filled)
  then show ?thesis by (intro that[of fi acts c]) (simp_all add: extract_fields_def)
qed

text \<open>
  C10: for every list of fragments the fields \<open>PropertyOfInterest\<close>,
  \<open>TotalValueOfPropertyInRs\<close>, \<open>Inquest_UDB_CaseNo\<close>, \<open>FIR.InfoReceivedAtPS\<close>,
  \<open>FIR.GeneralDiaryReference\<close>, \<open>ComplainantSignature\<close>,
  \<open>DateTimeOfDispatchToCourt\<close> and \<open>AccusedPhysicalDetails\<close> of the record returned
  have the values of the skeleton.
\<close>

theorem untouched_fields:
  "at_path (extract_fields U self ocr_data) [''PropertyOfInterest''] = Some (PList [])
   \<and> at_path (extract_fields U self ocr_data) [''TotalValueOfPropertyInRs''] = Some (PStr [])
   \<and> at_path (extract_fields U self ocr_data) [''Inquest_UDB_CaseNo''] = Some (PList [])
   \<and> at_path (extract_fields U self ocr_data) [''FIR'', ''InfoReceivedAtPS'']
       = Some (PDict [(''Date'', PStr []), (''Time'', PStr [])])
   \<and> at_path (extract_fields U self ocr_data) [''FIR'', ''GeneralDiaryReference'']
       = Some (PDict [(''EntryNo'', PStr []), (''DateTime'', PStr [])])
   \<and> at_path (extract_fields U self ocr_data) [''ComplainantSignature'']
       = Some (PDict [(''Name'', PStr []), (''Rank'', PStr []), (''No'', PStr [])])
   \<and> at_path (extract_fields U self ocr_data) [''DateTimeOfDispatchToCourt''] = Some (PStr [])
   \<and> at_path (extract_fields U self ocr_data) [''AccusedPhysicalDetails''] = Some (PList [])"
proof -
  obtain fi c acts where
    fi: "extract_fir_info U (cleaned_fragments U ocr_data) (full_text_of U ocr_data) = Inr fi"
    and r: "extract_fields U self ocr_data = PDict (filled_record
          (filled_fir fi (extract_occurrence U (cleaned_fragments U ocr_data) (full_text_of U ocr_data)) acts
             (extract_place U (cleaned_fragments U ocr_data) (full_text_of U ocr_data)))
          (py_update skeleton_complainant c)
          (extract_accused U (cleaned_fragments U ocr_data))
          (extract_first_information U (cleaned_fragments U ocr_data) (full_text_of U ocr_data))
          (extract_action_taken U (cleaned_fragments U ocr_data) (full_text_of U ocr_data)))"
    by (rule extract_fields_filled)
  note k = extract_fir_info_keys[OF fi]
  have "map_of (py_update skeleton_fir fi) ''InfoReceivedAtPS'' = map_of skeleton_fir ''InfoReceivedAtPS''"
    "map_of (py_update skeleton_fir fi) ''GeneralDiaryReference'' = map_of skeleton_fir ''GeneralDiaryReference''"
    by (rule map_of_py_update_other[OF k], simp add: fir_info_keys_def)+
  then have o: "map_of (py_update skeleton_fir fi) ''InfoReceivedAtPS''
        = Some (PDict [(''Date'', PStr []), (''Time'', PStr [])])"
    "map_of (py_update skeleton_fir fi) ''GeneralDiaryReference''
        = Some (PDict [(''EntryNo'', PStr []), (''DateTime'', PStr [])])"
    by (simp_all add: skeleton_fir_def)
  show ?thesis
    unfolding r
    by (simp add: filled_record_def filled_fir_def update_conv' o)
qed

theorem untouched_fields_witness:
  "at_path (extract_fields ucd_devanagari \<lparr> self_patterns = baseline_patterns \<rparr> [frag (u ''FIR No. : 2021'')])
     [''PropertyOfInterest''] = Some (PList [])
   \<and> at_path (extract_fields ucd_devanagari \<lparr> self_patterns = baseline_patterns \<rparr> [frag (u ''FIR No. : 2021'')])
     [''FIR'', ''InfoReceivedAtPS''] = Some (PDict [(''Date'', PStr []), (''Time'', PStr [])])
   \<and> at_path (extract_fields ucd_devanagari \<lparr> self_patterns = baseline_patterns \<rparr> [frag (u ''FIR No. : 2021'')])
     [''ComplainantSignature''] = Some (PDict [(''Name'', PStr []), (''Rank'', PStr []), (''No'', PStr [])])"
  using untouched_fields
          [of ucd_devanagari "\<lparr> self_patterns = baseline_patterns \<rparr>" "[frag (u ''FIR No. : 2021'')]"]
  by blast

lemma mt_year:
  "mt U F year_rx pre s caps =
     (if 4 \<le> length s \<and> list_all (is_decimal U) (take 4 s)
      then Some (rev (take 4 s) @ pre, drop 4 s, caps(1 \<mapsto> take 4 s)) else None)"
  unfolding year_rx_def
  by (simp add: rep_greedy_zero in_cls_CDigit)

lemma search_year:
  "map_option (\<lambda>m. snd (snd m)) (search_from U F year_rx pre s)
     = map_option (\<lambda>run. Map.empty(1 \<mapsto> run)) (first_four_digits U s)"
proof (induction s arbitrary: pre)
  case Nil
  then show ?case by (simp add: mt_year)
next
  case (Cons c cs)
  then show ?case by (auto simp add: mt_year fun_eq_iff simp del: mt.simps)
qed

lemma re_search_year:
  "re_search U F year_rx s = map_option (\<lambda>run. Map.empty(1 \<mapsto> run)) (first_four_digits U s)"
  unfolding re_search_def by (rule search_year)

lemma first_four_digits_decimal:
  "first_four_digits U s = Some run \<Longrightarrow> run \<noteq> [] \<and> list_all (is_decimal U) run"
  by (induction s) (auto split: if_splits)

lemma block_other_key:
  "k \<noteq> ''FIRNo'' \<Longrightarrow> map_of (fir_no_block U ft d) k = map_of d k"
  "k \<noteq> ''DateTimeOfFIR'' \<Longrightarrow> map_of (date_time_block U ft d) k = map_of d k"
  "k \<noteq> ''District'' \<Longrightarrow> map_of (district_block U ft d) k = map_of d k"
  "k \<noteq> ''PoliceStation'' \<Longrightarrow> map_of (police_station_block U ft d) k = map_of d k"
  "k \<noteq> ''TypeOfInformation'' \<Longrightarrow> map_of (type_of_information_block ft d) k = map_of d k"
  using block_cases(1)[of U ft d] block_cases(2)[of U ft d] block_cases(3)[of U ft d]
    block_cases(4)[of U ft d] block_cases(5)[of ft d]
  by (auto simp: update_conv')

lemma before_year_no_year: "map_of (before_year U ft) ''Year'' = None"
  unfolding before_year_def by (simp add: block_other_key)

lemma fir_info_year:
  assumes "extract_fir_info U ocr ft = Inr fi"
  shows "(case map_of fi ''Year'' of Some v \<Rightarrow> v | None \<Rightarrow> PInt 0)
     = PInt (case first_four_digits U ft of
               None \<Rightarrow> 0
             | Some run \<Rightarrow>
                 if 2000 \<le> digits_value U run \<and> digits_value U run \<le> 2030
                 then digits_value U run else 0)"
proof -
  from assms obtain d where d: "year_block U ft (before_year U ft) = Inr d"
    and fi: "fi = type_of_information_block ft d"
    by (auto simp: extract_fir_info_unfold split: sum.splits)
  have y: "map_of fi ''Year'' = map_of d ''Year''" unfolding fi by (simp add: block_other_key)
  show ?thesis
  proof (cases "first_four_digits U ft")
    case None
    with d have "d = before_year U ft" by (simp add: year_block_def re_search_year)
    with None y show ?thesis by (simp add: before_year_no_year)
  next
    case (Some run)
    from first_four_digits_decimal[OF Some]
    have i: "py_int U run = Inr (digits_value U run)" by (simp add: py_int_def digits_value_def)
    from d Some i have "d = (if 2000 \<le> digits_value U run \<and> digits_value U run \<le> 2030
        then AList.update ''Year'' (PInt (digits_value U run)) (before_year U ft) else before_year U ft)"
      by (simp add: year_block_def re_search_year match_group_def)
    with Some y show ?thesis
      by (simp add: before_year_no_year update_conv')
  qed
qed

text \<open>
  C5, as the code has it: \<open>FIR.Year\<close> is decided by the first run of four decimal digits of
  the full text alone. It is the value of that run when the value lies in [2000, 2030], and 0
  when the value lies outside or when the text has no run of four digits. So a first run
  \<open>1850\<close> or \<open>2045\<close> never populates the year; a later run in range is not looked at.
\<close>

theorem year_is_first_run:
  "at_path (extract_fields U self ocr_data) [''FIR'', ''Year'']
     = Some (PInt (case first_four_digits U (full_text_of U ocr_data) of
                     None \<Rightarrow> 0
                   | Some run \<Rightarrow>
                       if 2000 \<le> digits_value U run \<and> digits_value U run \<le> 2030
                       then digits_value U run else 0))"
proof -
  obtain fi c acts where
    fi: "extract_fir_info U (cleaned_fragments U ocr_data) (full_text_of U ocr_data) = Inr fi"
    and r: "extract_fields U self ocr_data = PDict (filled_record
          (filled_fir fi (extract_occurrence U (cleaned_fragments U ocr_data) (full_text_of U ocr_data)) acts
             (extract_place U (cleaned_fragments U ocr_data) (full_text_of U ocr_data)))
          (py_update skeleton_complainant c)
          (extract_accused U (cleaned_fragments U ocr_data))
          (extract_first_information U (cleaned_fragments U ocr_data) (full_text_of U ocr_data))
          (extract_action_taken U (cleaned_fragments U ocr_data) (full_text_of U ocr_data)))"
    by (rule extract_fields_filled)
  from extract_fir_info_keys[OF fi] have "distinct (map fst fi)" by (simp add: keys_within_def)
  then have "map_of (py_update skeleton_fir fi) ''Year''
      = Some (case map_of fi ''Year'' of Some v \<Rightarrow> v | None \<Rightarrow> PInt 0)"
    by (simp add: map_of_py_update map_of_rev_distinct map_add_def skeleton_fir_def split: option.splits)
  then have "map_of (py_update skeleton_fir fi) ''Year''
      = Some (PInt (case first_four_digits U (full_text_of U ocr_data) of
                     None \<Rightarrow> 0
                   | Some run \<Rightarrow>
                       if 2000 \<le> digits_value U run \<and> digits_value U run \<le> 2030
                       then digits_value U run else 0))"
    by (simp only: fir_info_year[OF fi])
  then show ?thesis
    unfolding r by (simp add: filled_record_def filled_fir_def update_conv')
qed

section \<open>The extraction on sample inputs\<close>

lemma findall_from_Nil:
  "findall_from U F p pre [] =
     (case mt U F p pre [] Map.empty of Some m \<Rightarrow> [match_group (snd (snd m)) 1] | None \<Rightarrow> [])"
  by (subst findall_from.simps) (simp split: option.splits)

lemma findall_from_Cons:
  "findall_from U F p pre (c # cs) =
     (case mt U F p pre (c # cs) Map.empty of
        Some m \<Rightarrow>
          match_group (snd (snd m)) 1 #
            (if length (fst (snd m)) < Suc (length cs) then findall_from U F p (fst m) (fst (snd m))
             else findall_from U F p (c # pre) cs)
      | None \<Rightarrow> findall_from U F p (c # pre) cs)"
  by (subst findall_from.simps) (simp split: option.splits)

lemmas rx_defs = fir_no_rx_def date_time_rx_def district_rx_def police_station_rx_def year_rx_def
  name_rx_def father_rx_def dob_rx_def mobile_rx_def uid_rx_def address_rx_def accused_rx_def
  day_rx_def date_rx_def time_rx_def time_period_rx_def section_rx_def number_rx_def
  direction_rx_def distance_rx_def beat_rx_def place_address_rx_def officer_rx_def rank_rx_def
  officer_no_rx_def contents_rx_def

lemmas char_defs = chr_match_def ci_eq_def ci_lower_def ascii_lower_def is_decimal_def is_space_def
  is_word_def is_ascii_letter_def at_end_def at_boundary_def dec_more_def
  IGNORECASE_def no_flags_def IGNORECASE_DOTALL_def aropi_def naav_def upnaav_def likhit_def maukhik_def

lemmas run_defs = field_steps_def try_statements_def extract_fir_info_def fir_no_block_def date_time_block_def
  district_block_def police_station_block_def year_block_def type_of_information_block_def
  extract_complainant_def dob_value_def first_group_def span_rule_def or_empty_def
  extract_accused_def extract_occurrence_def nth_or_empty_def extract_acts_sections_def
  extract_place_def extract_action_taken_def extract_first_information_def
  re_search_def re_findall_def match_group_def py_strip_def strip_punctuation_def py_int_def
  update_at_def set_at_def py_update_def skeleton_def skeleton_fir_def skeleton_complainant_def
  skeleton_action_taken_def findall_from_Nil findall_from_Cons

lemma empty_input: "extract_fields U self [] = PDict skeleton"
proof -
  have "try_block U [] = (None, skeleton)"
    unfolding try_block_def cleaned_fragments_def full_text_of_def
    by (simp add: clean_ocr_text_def List.map_filter_def run_defs rx_defs char_defs u_def)
  then show ?thesis by (simp add: extract_fields_def)
qed

lemma corrections_Accused: "apply_corrections corrections (u ''Accused'') = u ''AccusNo''"
proof -
  have "apply_corrections corrections (u ''Accused'') = py_replace (u ''ed'') (u ''No'') (u ''Accused'')"
    by (rule corrections_single_at [where i = 54])
       (simp_all add: corrections_display_def u_def py_replace_def)
  then show ?thesis by (simp add: py_replace_def u_def)
qed

lemma cleaned_accused:
  "cleaned_fragments ucd_devanagari [frag (u ''Accused''), frag (u ''Name''), frag (u ''Ramesh Kumar'')]
     = [frag (u ''AccusNo''), frag (u ''Name''), frag (u ''Ramesh Kumar'')]"
proof -
  have n: "apply_corrections corrections (u ''Name'') = u ''Name''"
    by (rule corrections_absent) (simp add: corrections_display_def u_def)
  have r: "apply_corrections corrections (u ''Ramesh Kumar'') = u ''Ramesh Kumar''"
    by (rule corrections_absent) (simp add: corrections_display_def u_def)
  have "clean_text ucd_devanagari (u ''Accused'') = Some (u ''AccusNo'')"
    "clean_text ucd_devanagari (u ''Name'') = Some (u ''Name'')"
    "clean_text ucd_devanagari (u ''Ramesh Kumar'') = Some (u ''Ramesh Kumar'')"
    using corrections_Accused n r by (simp_all add: clean_defs u_def)
  then show ?thesis
    by (simp add: cleaned_fragments_def clean_ocr_text_def List.map_filter_def frag_def)
qed

text \<open>
  C3 fails on the code. The fragments \<open>Accused\<close>, \<open>Name\<close>, \<open>Ramesh Kumar\<close> give no
  accused entry: the second definition of \<open>_extract_accused\<close> replaces the block
  heuristic and needs a colon after the \<open>Name\<close> label, and the correction table has turned
  \<open>Accused\<close> into \<open>AccusNo\<close> before any rule sees it. The replaced first definition, on
  the fragments as given, returns the entry the claim describes.
\<close>

theorem accused_block_lost:
  "at_path (extract_fields ucd_devanagari \<lparr> self_patterns = baseline_patterns \<rparr>
              [frag (u ''Accused''), frag (u ''Name''), frag (u ''Ramesh Kumar'')]) [''AccusedDetails'']
     = Some (PList [])
   \<and> extract_accused_first [frag (u ''Accused''), frag (u ''Name''), frag (u ''Ramesh Kumar'')]
     = [accused_entry (u ''Ramesh Kumar'')]"
proof -
  have "at_path (PDict (snd (try_block ucd_devanagari
          [frag (u ''Accused''), frag (u ''Name''), frag (u ''Ramesh Kumar'')]))) [''AccusedDetails'']
     = Some (PList [])"
    unfolding try_block_def full_text_of_def cleaned_accused
    by (simp add: run_defs rx_defs char_defs frag_def u_def)
  moreover have "extract_accused_first [frag (u ''Accused''), frag (u ''Name''), frag (u ''Ramesh Kumar'')]
     = [accused_entry (u ''Ramesh Kumar'')]"
    by (simp add: extract_accused_first_def frag_def u_def aropi_def naav_def)
  ultimately show ?thesis by (simp add: extract_fields_def)
qed

lemma cleaned_station_road:
  "cleaned_fragments ucd_devanagari [frag (u ''District : Station Road'')]
     = [frag (u ''District : Station Road'')]"
proof -
  have "apply_corrections corrections (u ''District : Station Road'') = u ''District : Station Road''"
    by (rule corrections_absent) (simp add: corrections_display_def u_def)
  then have "clean_text ucd_devanagari (u ''District : Station Road'') = Some (u ''District : Station Road'')"
    by (simp add: clean_defs u_def)
  then show ?thesis
    by (simp add: cleaned_fragments_def clean_ocr_text_def List.map_filter_def frag_def)
qed

text \<open>
  C2 fails on the code. After a refinement that has seen the district \<open>Station Road\<close>,
  a service constructed from the disk has the refined district rule, and the extraction
  of \<open>District : Station Road\<close> still leaves the district empty: the rules of
  \<open>_extract_fir_info\<close> are written into the method, which never reads the pattern table.
\<close>

theorem refined_district_not_used:
  "fst (retrain_model DiskOk
          \<lparr> sample_files = [district_sample (u ''Station Road''), PDict [], PDict [], PDict [], PDict []],
            improved_patterns_file = NoFile, running_patterns = baseline_patterns \<rparr>)
     = \<lparr> status = ''success'', samples_used = Some 5 \<rparr>
   \<and> map_of (service_patterns (snd (snd (retrain_model DiskOk
        \<lparr> sample_files = [district_sample (u ''Station Road''), PDict [], PDict [], PDict [], PDict []],
          improved_patterns_file = NoFile, running_patterns = baseline_patterns \<rparr>)))) ''district''
     = Some (district_label @ u ''Station'' @ [92] @ u '' Road)'')
   \<and> at_path (extract_fields ucd_devanagari
        \<lparr> self_patterns = service_patterns (snd (snd (retrain_model DiskOk
             \<lparr> sample_files = [district_sample (u ''Station Road''), PDict [], PDict [], PDict [], PDict []],
               improved_patterns_file = NoFile, running_patterns = baseline_patterns \<rparr>))) \<rparr>
        [frag (u ''District : Station Road'')]) [''FIR'', ''District'']
     = Some (PStr [])"
proof -
  let ?st = "\<lparr> sample_files = [district_sample (u ''Station Road''), PDict [], PDict [], PDict [], PDict []],
          improved_patterns_file = NoFile, running_patterns = baseline_patterns \<rparr>"
  have a: "analyze_training_samples (sample_files ?st)
        = Inr [(''district'', district_label @ u ''Station'' @ [92] @ u '' Road)'')]"
    by (simp add: analyze_training_samples_def district_sample_def ground_truth_field_def
        re_escape_def escape_special_def u_def)
  have w: "save_improved_patterns DiskOk [(''district'', district_label @ u ''Station'' @ [92] @ u '' Road)'')] NoFile
        = PatternsFile [(''district'', district_label @ u ''Station'' @ [92] @ u '' Road)'')]"
    by (simp add: save_improved_patterns_def utf8_encodable_def district_label_def u_def)
  have r: "retrain_model DiskOk ?st = (\<lparr> status = ''success'', samples_used = Some 5 \<rparr>,
        Some (py_update (service_patterns ?st) [(''district'', district_label @ u ''Station'' @ [92] @ u '' Road)'')]),
        ?st \<lparr> improved_patterns_file := PatternsFile [(''district'', district_label @ u ''Station'' @ [92] @ u '' Road)'')] \<rparr>)"
    using a w by (simp add: retrain_model_def Let_def)
  have p: "map_of (service_patterns (snd (snd (retrain_model DiskOk ?st)))) ''district''
     = Some (district_label @ u ''Station'' @ [92] @ u '' Road)'')"
    unfolding r by (simp add: service_patterns_def load_improved_patterns_def map_of_py_update)
  have e: "at_path (PDict (snd (try_block ucd_devanagari [frag (u ''District : Station Road'')]))) [''FIR'', ''District'']
     = Some (PStr [])"
    unfolding try_block_def full_text_of_def cleaned_station_road
    by (simp add: run_defs rx_defs char_defs frag_def u_def)
  from r p e show ?thesis by (simp add: extract_fields_def)
qed

lemma cleaned_years:
  "cleaned_fragments ucd_devanagari [frag (u ''1850 2021'')] = [frag (u ''1850 2021'')]"
proof -
  have "apply_corrections corrections (u ''1850 2021'') = u ''1850 2021''"
    by (rule corrections_absent) (simp add: corrections_display_def u_def)
  then have "clean_text ucd_devanagari (u ''1850 2021'') = Some (u ''1850 2021'')"
    by (simp add: clean_defs u_def)
  then show ?thesis
    by (simp add: cleaned_fragments_def clean_ocr_text_def List.map_filter_def frag_def)
qed

text \<open>
  C5 as stated fails: only the first run of four digits is tried. In \<open>1850 2021\<close> the
  first run is out of range, and the year stays 0 although \<open>2021\<close> follows.
\<close>

theorem later_year_not_taken:
  "full_text_of ucd_devanagari [frag (u ''1850 2021'')] = u ''1850 2021''
   \<and> at_path (extract_fields ucd_devanagari \<lparr> self_patterns = baseline_patterns \<rparr> [frag (u ''1850 2021'')])
        [''FIR'', ''Year''] = Some (PInt 0)"
proof -
  have f: "full_text_of ucd_devanagari [frag (u ''1850 2021'')] = u ''1850 2021''"
    unfolding full_text_of_def cleaned_years by (simp add: frag_def)
  have "at_path (PDict (snd (try_block ucd_devanagari [frag (u ''1850 2021'')]))) [''FIR'', ''Year'']
     = Some (PInt 0)"
    unfolding try_block_def full_text_of_def cleaned_years
    by (simp add: run_defs rx_defs char_defs frag_def u_def decimal_value_def)
  with f show ?thesis
    unfolding extract_fields_def by blast
qed

lemma cleaned_fir_no:
  "cleaned_fragments ucd_devanagari [frag (u ''FIR No. : 2021'')] = [frag (u ''FIR No. : 2021'')]"
proof -
  have "apply_corrections corrections (u ''FIR No. : 2021'') = u ''FIR No. : 2021''"
    by (rule corrections_absent) (simp add: corrections_display_def u_def)
  then have "clean_text ucd_devanagari (u ''FIR No. : 2021'') = Some (u ''FIR No. : 2021'')"
    by (simp add: clean_defs u_def)
  then show ?thesis
    by (simp add: cleaned_fragments_def clean_ocr_text_def List.map_filter_def frag_def)
qed

theorem extract_fields_never_raises_witness:
  "fst (try_block ucd_devanagari [frag (u ''FIR No. : 2021'')]) = None
   \<and> extract_fields ucd_devanagari \<lparr> self_patterns = baseline_patterns \<rparr> [frag (u ''FIR No. : 2021'')]
       = PDict (snd (try_block ucd_devanagari [frag (u ''FIR No. : 2021'')]))
   \<and> at_path (PDict (snd (try_block ucd_devanagari [frag (u ''FIR No. : 2021'')]))) [''FIR'', ''FIRNo'']
       = Some (PStr (u ''2021''))"
proof -
  have "at_path (PDict (snd (try_block ucd_devanagari [frag (u ''FIR No. : 2021'')]))) [''FIR'', ''FIRNo'']
       = Some (PStr (u ''2021''))"
    unfolding try_block_def full_text_of_def cleaned_fir_no
    by (simp add: run_defs rx_defs char_defs frag_def u_def decimal_value_def)
  with extract_fields_never_raises
         [of ucd_devanagari "[frag (u ''FIR No. : 2021'')]" "\<lparr> self_patterns = baseline_patterns \<rparr>"]
  show ?thesis by blast
qed

lemma cleaned_year_first:
  "cleaned_fragments ucd_devanagari [frag (u ''on 2021, born 1850'')] = [frag (u ''on 2021, born 1850'')]"
proof -
  have "apply_corrections corrections (u ''on 2021, born 1850'') = u ''on 2021, born 1850''"
    by (rule corrections_absent) (simp add: corrections_display_def u_def)
  then have "clean_text ucd_devanagari (u ''on 2021, born 1850'') = Some (u ''on 2021, born 1850'')"
    by (simp add: clean_defs u_def)
  then show ?thesis
    by (simp add: cleaned_fragments_def clean_ocr_text_def List.map_filter_def frag_def)
qed

theorem year_is_first_run_witness:
  "at_path (extract_fields ucd_devanagari \<lparr> self_patterns = baseline_patterns \<rparr>
       [frag (u ''on 2021, born 1850'')]) [''FIR'', ''Year''] = Some (PInt 2021)"
proof -
  have "first_four_digits ucd_devanagari (full_text_of ucd_devanagari [frag (u ''on 2021, born 1850'')])
      = Some (u ''2021'')"
    unfolding full_text_of_def cleaned_year_first
    by (simp add: frag_def u_def char_defs)
  moreover have "digits_value ucd_devanagari (u ''2021'') = 2021"
    by (simp add: digits_value_def u_def char_defs decimal_value_def)
  ultimately show ?thesis
    using year_is_first_run [of ucd_devanagari "\<lparr> self_patterns = baseline_patterns \<rparr>"
        "[frag (u ''on 2021, born 1850'')]"]
    by simp
qed

section \<open>The default-filled record\<close>

text \<open>
  C4 as stated fails: in the record returned for the empty list of fragments the key
  \<open>ComplainantInformant.Nationality\<close> holds the Devanagari word for India, which is
  neither the empty string, nor the empty list, nor zero.
\<close>

theorem nationality_default_not_empty:
  "at_path (extract_fields ucd_devanagari \<lparr> self_patterns = baseline_patterns \<rparr> [])
       [''ComplainantInformant'', ''Nationality''] = Some (PStr [2349, 2366, 2352, 2340])
   \<and> \<not> default_leaf (PStr [2349, 2366, 2352, 2340])"
  by (simp add: empty_input skeleton_def skeleton_complainant_def bharat_def default_leaf_def)

lemma skeleton_defaults:
  "\<forall>p\<in>set (paths_of (PDict skeleton)).
      \<exists>v. at_path (PDict skeleton) p = Some v
         \<and> (is_dict v \<or> default_leaf v \<or> (p = [''ComplainantInformant'', ''Nationality''] \<and> v = PStr bharat))"
  by (simp add: skeleton_def skeleton_fir_def skeleton_complainant_def skeleton_action_taken_def default_leaf_def)

lemma at_path_Nil: "at_path (PDict []) (k # ks) = None"
  by simp

lemma at_path_Cons:
  "at_path (PDict ((k', v) # d)) (k # ks) = (if k = k' then at_path v ks else at_path (PDict d) (k # ks))"
  by simp

lemma at_path_py_update_key:
  "k \<in> fst ` set d \<Longrightarrow> (\<exists>v. at_path (PDict (py_update d e)) [k] = Some v) = True"
  using at_path_py_update_top[of k d e] by auto

lemma filled_paths:
  assumes k: "keys_within fir_info_keys fi"
  shows "\<forall>p\<in>set (paths_of (PDict skeleton)).
     at_path (PDict (filled_record
          (filled_fir fi (extract_occurrence U cl ft) acts (extract_place U cl ft))
          (py_update skeleton_complainant c) acc contents (extract_action_taken U cl ft))) p \<noteq> None"
proof -
  note o = at_path_py_update_other[OF k]
  show ?thesis
    by (simp add: skeleton_def skeleton_fir_def skeleton_complainant_def skeleton_action_taken_def
        filled_record_def filled_fir_def extract_occurrence_def extract_place_def
        extract_action_taken_def Let_def fir_info_keys_def
        at_path_Nil at_path_Cons at_path_update o at_path_py_update_key
        del: at_path.simps(2))
qed

text \<open>
  C4, as the code has it: on the empty list of fragments \<open>extract_fields\<close> returns the
  skeleton; in the skeleton every declared key, at every level, holds a dict, an empty
  string, an empty list or zero, except \<open>ComplainantInformant.Nationality\<close>, whose default
  is the Devanagari word for India; and for every list of fragments every key path of the
  skeleton is present in the record returned.
\<close>

theorem default_filled_record:
  "extract_fields U self [] = PDict skeleton
   \<and> (\<forall>p\<in>set (paths_of (PDict skeleton)).
        \<exists>v. at_path (PDict skeleton) p = Some v
           \<and> (is_dict v \<or> default_leaf v
               \<or> (p = [''ComplainantInformant'', ''Nationality''] \<and> v = PStr [2349, 2366, 2352, 2340])))
   \<and> (\<forall>p\<in>set (paths_of (PDict skeleton)). at_path (extract_fields U self ocr_data) p \<noteq> None)"
proof -
  obtain fi c acts where
    fi: "extract_fir_info U (cleaned_fragments U ocr_data) (full_text_of U ocr_data) = Inr fi"
    and r: "extract_fields U self ocr_data = PDict (filled_record
          (filled_fir fi (extract_occurrence U (cleaned_fragments U ocr_data) (full_text_of U ocr_data)) acts
             (extract_place U (cleaned_fragments U ocr_data) (full_text_of U ocr_data)))
          (py_update skeleton_complainant c)
          (extract_accused U (cleaned_fragments U ocr_data))
          (extract_first_information U (cleaned_fragments U ocr_data) (full_text_of U ocr_data))
          (extract_action_taken U (cleaned_fragments U ocr_data) (full_text_of U ocr_data)))"
    by (rule extract_fields_filled)
  have 1: "extract_fields U self [] = PDict skeleton" by (rule empty_input)
  have 2: "\<forall>p\<in>set (paths_of (PDict skeleton)).
        \<exists>v. at_path (PDict skeleton) p = Some v
           \<and> (is_dict v \<or> default_leaf v
               \<or> (p = [''ComplainantInformant'', ''Nationality''] \<and> v = PStr [2349, 2366, 2352, 2340]))"
    using skeleton_defaults by (simp only: bharat_def)
  have 3: "\<forall>p\<in>set (paths_of (PDict skeleton)). at_path (extract_fields U self ocr_data) p \<noteq> None"
    unfolding r by (rule filled_paths[OF extract_fir_info_keys[OF fi]])
  from 1 2 3 show ?thesis by (intro conjI)
qed

theorem default_filled_record_witness:
  "extract_fields ucd_devanagari \<lparr> self_patterns = baseline_patterns \<rparr> [] = PDict skeleton
   \<and> [''FIR'', ''PlaceOfOccurrence'', ''DirectionDistanceFromPS'', ''Distance''] \<in> set (paths_of (PDict skeleton))
   \<and> at_path (PDict skeleton) [''FIR'', ''PlaceOfOccurrence'', ''DirectionDistanceFromPS'', ''Distance'']
       = Some (PStr [])
   \<and> at_path (extract_fields ucd_devanagari \<lparr> self_patterns = baseline_patterns \<rparr> [frag (u ''FIR No. : 2021'')])
        [''FIR'', ''PlaceOfOccurrence'', ''DirectionDistanceFromPS'', ''Distance''] \<noteq> None"
proof -
  have m: "[''FIR'', ''PlaceOfOccurrence'', ''DirectionDistanceFromPS'', ''Distance''] \<in> set (paths_of (PDict skeleton))"
    by (simp add: skeleton_def skeleton_fir_def skeleton_complainant_def skeleton_action_taken_def)
  have v: "at_path (PDict skeleton) [''FIR'', ''PlaceOfOccurrence'', ''DirectionDistanceFromPS'', ''Distance'']
       = Some (PStr [])"
    by (simp add: skeleton_def skeleton_fir_def)
  from m v show ?thesis
    using default_filled_record [of ucd_devanagari "\<lparr> self_patterns = baseline_patterns \<rparr>"
        "[frag (u ''FIR No. : 2021'')]"]
    by blast
qed

section \<open>The handler of the \<open>try\<close> block\<close>






end
